theory Spec2Isabelle
  imports Main "HOL-Library.AList" "HOL-Library.Product_Lexorder"
begin

section \<open>Strings\<close>

text \<open>
  JavaScript strings are modelled as \<open>string\<close> (lists of 8-bit characters), so the
  model covers ASCII text. \<open>toLowerCase\<close> maps \<open>A..Z\<close> to \<open>a..z\<close> and leaves
  every other character alone.
\<close>

definition lower_char :: "char \<Rightarrow> char" where
  "lower_char c =
     (let n = (of_char c :: nat) in if 65 \<le> n \<and> n \<le> 90 then char_of (n + 32) else c)"

definition toLowerCase :: "string \<Rightarrow> string" where
  "toLowerCase s = map lower_char s"

text \<open>\<open>s.startsWith(q)\<close>, \<open>s.indexOf(q)\<close> (\<open>-1\<close> when absent) and \<open>s.includes(q)\<close> (\<open>includes_str\<close>).\<close>

fun startsWith :: "string \<Rightarrow> string \<Rightarrow> bool" where
  "startsWith s [] = True"
| "startsWith [] (q # qs) = False"
| "startsWith (c # cs) (q # qs) = (c = q \<and> startsWith cs qs)"

fun indexOf_from :: "nat \<Rightarrow> string \<Rightarrow> string \<Rightarrow> int" where
  "indexOf_from i [] q = (if q = [] then int i else -1)"
| "indexOf_from i (c # cs) q =
     (if startsWith (c # cs) q then int i else indexOf_from (Suc i) cs q)"

definition indexOf :: "string \<Rightarrow> string \<Rightarrow> int" where
  "indexOf s q = indexOf_from 0 s q"

definition includes_str :: "string \<Rightarrow> string \<Rightarrow> bool" where
  "includes_str s q = (indexOf s q \<noteq> -1)"

text \<open>The character classes \<open>\s\<close> and \<open>\w\<close> of the regular expressions, on ASCII.\<close>

definition is_space :: "char \<Rightarrow> bool" where
  "is_space c = (let n = (of_char c :: nat) in n = 32 \<or> (9 \<le> n \<and> n \<le> 13))"

definition is_word :: "char \<Rightarrow> bool" where
  "is_word c =
     (let n = (of_char c :: nat) in
        (48 \<le> n \<and> n \<le> 57) \<or> (65 \<le> n \<and> n \<le> 90) \<or> (97 \<le> n \<and> n \<le> 122) \<or> n = 95)"

text \<open>\<open>s.replace(/\s+/g, '-')\<close>: every maximal run of white space becomes one hyphen.\<close>

fun replace_run :: "bool \<Rightarrow> string \<Rightarrow> string" where
  "replace_run in_run [] = []"
| "replace_run in_run (c # cs) =
     (if is_space c then (if in_run then replace_run True cs else CHR ''-'' # replace_run True cs)
      else c # replace_run False cs)"

definition replace_spaces :: "string \<Rightarrow> string" where
  "replace_spaces s = replace_run False s"

text \<open>
  \<open>_normalizeNameKey\<close>: lower-case, white space to hyphens, then
  \<open>replace(/[^\w-]/g, '')\<close>. The empty name gives the empty key by either branch.
\<close>

definition normalizeNameKey :: "string \<Rightarrow> string" where
  "normalizeNameKey name =
     (if name = [] then []
      else filter (\<lambda>c. is_word c \<or> c = CHR ''-'') (replace_spaces (toLowerCase name)))"

section \<open>Data model\<close>

text \<open>
  A field that the JavaScript object may lack is an \<open>option\<close>. A year is falsy when it
  is absent or \<open>0\<close>.
\<close>

record paper =
  p_title :: string
  p_year :: "int option"
  p_coauthors :: "string list"

record event =
  e_title :: string
  e_year :: "int option"
  e_location :: string

record academic =
  name :: string
  bio :: "string option"
  taxonomies :: "(string \<times> string list) list option"
  papers :: "paper list option"
  events :: "event list option"
  connections :: "string list option"

text \<open>
  A tile as the caller passes it (\<open>date\<close> optional) and as the list holds it. Dates are
  the instants that the ISO strings denote, so \<open>new Date(b.date) - new Date(a.date)\<close>
  is a difference of integers.
\<close>

record tile_input =
  ti_title :: string
  ti_content :: string
  ti_date :: "int option"
  ti_type :: string

record tile =
  t_title :: string
  t_content :: string
  t_date :: int
  t_type :: string

record submission =
  s_academicName :: string
  s_type :: string

text \<open>
  The catalog \<open>this.academics\<close> is an object used as a dictionary: an association
  list in insertion order, which is the order of \<open>Object.values\<close>. Assigning to a
  present key keeps its position, assigning to a new key appends
  (\<open>AList.update\<close>).
\<close>

type_synonym catalog = "(string \<times> academic) list"

definition values_of :: "catalog \<Rightarrow> academic list" where
  "values_of c = map snd c"

section \<open>localStorage\<close>

text \<open>
  A slot holds a string; the model keeps what matters about it: whether it is empty,
  whether \<open>JSON.parse\<close> throws on it, parses to a falsy value, to a truthy value that
  is not an object, or to the catalog object that \<open>JSON.stringify\<close> wrote.
\<close>

datatype stored = EmptyStr | Garbage | JFalsy | JScalar | JObject catalog

record storage =
  ls_academics :: "stored option"
  ls_backup :: "stored option"
  ls_noveltyTiles :: "tile list option"
  ls_favorites :: "string list option"
  ls_pendingSubmissions :: "submission list option"

datatype key = KAcademics | KBackup | KNoveltyTiles | KFavorites | KPendingSubmissions

datatype exn = QuotaExceededError | OtherError

text \<open>
  \<open>localStorage.setItem\<close> is the browser's, not the program's. Its behaviour is a
  parameter: given the key, the storage before the call and the storage that a faithful
  write would leave, it either throws or returns the storage it really leaves.
\<close>

type_synonym setItem = "key \<Rightarrow> storage \<Rightarrow> storage \<Rightarrow> exn + storage"

definition faithful :: setItem where
  "faithful k old new = Inr new"

text \<open>A storage that may refuse a write (throwing, nothing written) but never corrupts one.\<close>

definition well_behaved :: "setItem \<Rightarrow> bool" where
  "well_behaved F = (\<forall>k old new. F k old new = Inr new \<or> (\<exists>e. F k old new = Inl e))"

record db =
  academics :: catalog
  noveltyTiles :: "tile list"
  favorites :: "string list"
  pendingSubmissions :: "submission list"
  taxonomyCategories :: "(string \<times> string list) list"
  localStorageSupported :: bool
  localStorage :: storage

text \<open>\<open>[...tiles].sort((a, b) => new Date(b.date) - new Date(a.date))\<close>: stable, newest first.\<close>

definition sortedTiles :: "tile list \<Rightarrow> tile list" where
  "sortedTiles ts = sort_key (\<lambda>t. - t_date t) ts"

text \<open>
  \<open>_createBackup\<close>: copies a non-empty persisted catalog string to the backup slot; an
  exception of the write is caught inside.
\<close>

definition truthy_slot :: "stored option \<Rightarrow> bool" where
  "truthy_slot v = (v \<noteq> None \<and> v \<noteq> Some EmptyStr)"

definition createBackup :: "setItem \<Rightarrow> db \<Rightarrow> db" where
  "createBackup F d =
     (if \<not> localStorageSupported d then d
      else let s = localStorage d; currentData = ls_academics s in
        if truthy_slot currentData then
          (case F KBackup s (s\<lparr>ls_backup := currentData\<rparr>) of
             Inr s' \<Rightarrow> d\<lparr>localStorage := s'\<rparr>
           | Inl e \<Rightarrow> d)
        else d)"

text \<open>
  \<open>_restoreFromBackup\<close>: a backup that parses to an object replaces the in-memory
  catalog and is written back to the primary slot; every exception is caught inside.
\<close>

definition restoreFromBackup :: "setItem \<Rightarrow> db \<Rightarrow> bool \<times> db" where
  "restoreFromBackup F d =
     (if \<not> localStorageSupported d then (False, d)
      else let s = localStorage d; backup = ls_backup s in
        if \<not> truthy_slot backup then (False, d)
        else (case backup of
            Some (JObject backupData) \<Rightarrow>
              (let d1 = d\<lparr>academics := backupData\<rparr> in
               case F KAcademics s (s\<lparr>ls_academics := backup\<rparr>) of
                 Inr s' \<Rightarrow> (True, d1\<lparr>localStorage := s'\<rparr>)
               | Inl e \<Rightarrow> (False, d1))
          | _ \<Rightarrow> (False, d)))"

text \<open>The verification of \<open>saveToLocalStorage\<close>: the slot read back parses to an object.\<close>

definition verified :: "stored option \<Rightarrow> bool" where
  "verified v = (case v of Some (JObject c) \<Rightarrow> True | _ \<Rightarrow> False)"

text \<open>The \<open>catch\<close> block of \<open>saveToLocalStorage\<close>.\<close>

definition save_catch :: "setItem \<Rightarrow> exn \<Rightarrow> db \<Rightarrow> bool \<times> db" where
  "save_catch F e d =
     (if e = QuotaExceededError then
        (let r = (if length (noveltyTiles d) > 20 then
                    (let d1 = d\<lparr>noveltyTiles := take 20 (sortedTiles (noveltyTiles d))\<rparr>;
                         s = localStorage d1 in
                     case F KNoveltyTiles s (s\<lparr>ls_noveltyTiles := Some (noveltyTiles d1)\<rparr>) of
                       Inr s' \<Rightarrow> Inr (d1\<lparr>localStorage := s'\<rparr>)
                     | Inl x \<Rightarrow> Inl d1)
                  else Inr d) in
         case r of
           Inl d1 \<Rightarrow> (False, d1)
         | Inr d1 \<Rightarrow>
             (let s = localStorage d1 in
              case F KAcademics s (s\<lparr>ls_academics := Some (JObject (academics d1))\<rparr>) of
                Inr s' \<Rightarrow> (True, d1\<lparr>localStorage := s'\<rparr>)
              | Inl x \<Rightarrow> (False, d1)))
      else (False, d))"

text \<open>
  The four \<open>setItem\<close> calls of the \<open>try\<close> block, in order. \<open>Inl (e, d')\<close>: a call
  threw \<open>e\<close> with the state \<open>d'\<close> reached so far; \<open>Inr d'\<close>: all four returned.
\<close>

definition try_writes :: "setItem \<Rightarrow> db \<Rightarrow> (exn \<times> db) + db" where
  "try_writes F d0 =
     (let s0 = localStorage d0 in
        (case F KAcademics s0 (s0\<lparr>ls_academics := Some (JObject (academics d0))\<rparr>) of
          Inl e \<Rightarrow> Inl (e, d0)
        | Inr s1 \<Rightarrow>
        (case F KNoveltyTiles s1
               (s1\<lparr>ls_noveltyTiles := Some (take 50 (sortedTiles (noveltyTiles d0)))\<rparr>) of
          Inl e \<Rightarrow> Inl (e, d0\<lparr>localStorage := s1\<rparr>)
        | Inr s2 \<Rightarrow>
        (case F KFavorites s2 (s2\<lparr>ls_favorites := Some (favorites d0)\<rparr>) of
          Inl e \<Rightarrow> Inl (e, d0\<lparr>localStorage := s2\<rparr>)
        | Inr s3 \<Rightarrow>
        (case F KPendingSubmissions s3
               (s3\<lparr>ls_pendingSubmissions := Some (pendingSubmissions d0)\<rparr>) of
          Inl e \<Rightarrow> Inl (e, d0\<lparr>localStorage := s3\<rparr>)
        | Inr s4 \<Rightarrow> Inr (d0\<lparr>localStorage := s4\<rparr>))))))"

text \<open>
  \<open>saveToLocalStorage\<close>: backup, the writes, then the verification; a failed
  verification restores from the backup and returns \<open>false\<close>.
\<close>

definition saveToLocalStorage :: "setItem \<Rightarrow> db \<Rightarrow> bool \<times> db" where
  "saveToLocalStorage F d =
     (if \<not> localStorageSupported d then (False, d)
      else (case try_writes F (createBackup F d) of
              Inl (e, d') \<Rightarrow> save_catch F e d'
            | Inr d4 \<Rightarrow>
                if verified (ls_academics (localStorage d4)) then (True, d4)
                else (False, snd (restoreFromBackup F d4))))"

section \<open>Novelty tiles\<close>

text \<open>
  \<open>addNoveltyTile\<close>: \<open>now\<close> is the clock reading of \<open>new Date()\<close>. The tile goes to
  the front (\<open>unshift\<close>) with its date filled in (\<open>stored_tile\<close>), the list is cut
  to 100, then everything is saved; the result of the save is ignored.
\<close>

definition stored_tile :: "int \<Rightarrow> tile_input \<Rightarrow> tile" where
  "stored_tile now t =
     \<lparr>t_title = ti_title t, t_content = ti_content t,
      t_date = (case ti_date t of None \<Rightarrow> now | Some x \<Rightarrow> x), t_type = ti_type t\<rparr>"

definition addNoveltyTile :: "setItem \<Rightarrow> int \<Rightarrow> db \<Rightarrow> tile_input \<Rightarrow> bool \<times> db" where
  "addNoveltyTile F now d t =
     (if ti_title t = [] then (False, d)
      else let d1 = d\<lparr>noveltyTiles := stored_tile now t # noveltyTiles d\<rparr>;
               d2 = (if length (noveltyTiles d1) > 100
                     then d1\<lparr>noveltyTiles := take 100 (noveltyTiles d1)\<rparr> else d1)
           in (True, snd (saveToLocalStorage F d2)))"

section \<open>Merge\<close>

definition falsy_year :: "int option \<Rightarrow> bool" where
  "falsy_year y = (y = None \<or> y = Some 0)"

text \<open>The predicate of \<open>existing.papers.some(...)\<close> and of \<open>existing.events.some(...)\<close>.\<close>

definition paper_matches :: "paper \<Rightarrow> paper \<Rightarrow> bool" where
  "paper_matches p paper =
     (toLowerCase (p_title p) = toLowerCase (p_title paper) \<and>
      (falsy_year (p_year p) \<or> falsy_year (p_year paper) \<or> p_year p = p_year paper))"

definition event_matches :: "event \<Rightarrow> event \<Rightarrow> bool" where
  "event_matches e ev =
     (toLowerCase (e_title e) = toLowerCase (e_title ev) \<and>
      (falsy_year (e_year e) \<or> falsy_year (e_year ev) \<or> e_year e = e_year ev))"

text \<open>One round of a \<open>forEach\<close> that pushes the item unless an existing one matches it.\<close>

definition push_unless :: "('a \<Rightarrow> 'a \<Rightarrow> bool) \<Rightarrow> 'a \<Rightarrow> 'a list \<Rightarrow> 'a list" where
  "push_unless same x ex = (if list_ex (\<lambda>e. same e x) ex then ex else ex @ [x])"

definition merge_list :: "('a \<Rightarrow> 'a \<Rightarrow> bool) \<Rightarrow> 'a list \<Rightarrow> 'a list \<Rightarrow> 'a list" where
  "merge_list same ex new = fold (push_unless same) new ex"

definition or_empty :: "'a list option \<Rightarrow> 'a list" where
  "or_empty v = (case v of None \<Rightarrow> [] | Some xs \<Rightarrow> xs)"

text \<open>
  Reading a property of an object used as a dictionary goes through
  \<open>Object.prototype\<close>: a key that the object does not have itself but that names a
  member of the prototype yields that member, a built-in function or object, which is
  truthy. An association list stands for the own properties of the object, the first
  entry for a key defining it.
\<close>

definition prototype_members :: "string list" where
  "prototype_members =
     [''constructor'', ''hasOwnProperty'', ''isPrototypeOf'', ''propertyIsEnumerable'',
      ''toLocaleString'', ''toString'', ''valueOf'', ''__defineGetter__'', ''__defineSetter__'',
      ''__lookupGetter__'', ''__lookupSetter__'', ''__proto__'']"

datatype 'a property = Own 'a | Inherited | Missing

definition get_property :: "(string \<times> 'a) list \<Rightarrow> string \<Rightarrow> 'a property" where
  "get_property obj k =
     (case map_of obj k of
        Some v \<Rightarrow> Own v
      | None \<Rightarrow> if k \<in> set prototype_members then Inherited else Missing)"

text \<open>
  The body of \<open>for (const category in academic.taxonomies)\<close>; \<open>ta\<close> is
  \<open>academic.taxonomies\<close>, \<open>ex\<close> is \<open>existing.taxonomies\<close>. A category that
  \<open>ex\<close> lacks gets an empty list first. A category that \<open>ex\<close> inherits is truthy, so
  no list is made, and the first value of the candidate calls \<open>includes\<close> on a
  built-in that has no such method: a \<open>TypeError\<close>, which is \<open>None\<close> here.
\<close>

definition merge_category ::
  "(string \<times> string list) list \<Rightarrow> string \<Rightarrow> (string \<times> string list) list
     \<Rightarrow> (string \<times> string list) list option" where
  "merge_category ta category ex =
     (let vals = or_empty (map_of ta category) in
      case get_property ex category of
        Missing \<Rightarrow> Some (AList.update category (merge_list (=) [] vals) ex)
      | Own vs \<Rightarrow> Some (AList.update category (merge_list (=) vs vals) ex)
      | Inherited \<Rightarrow> if vals = [] then Some ex else None)"

text \<open>
  The loop over the categories, each own key once. \<open>False\<close>: a \<open>TypeError\<close> was
  thrown; the taxonomies are those reached before it.
\<close>

fun merge_categories ::
  "(string \<times> string list) list \<Rightarrow> string list \<Rightarrow> (string \<times> string list) list
     \<Rightarrow> bool \<times> (string \<times> string list) list" where
  "merge_categories ta [] ex = (True, ex)"
| "merge_categories ta (c # cs) ex =
     (case merge_category ta c ex of
        None \<Rightarrow> (False, ex)
      | Some ex' \<Rightarrow> merge_categories ta cs ex')"

definition nonempty :: "'a list option \<Rightarrow> bool" where
  "nonempty v = (case v of Some (x # xs) \<Rightarrow> True | _ \<Rightarrow> False)"

text \<open>The branch \<open>if (this.academics[key])\<close> of \<open>addOrUpdateAcademic\<close>, field by field.\<close>

definition merge_bio :: "academic \<Rightarrow> academic \<Rightarrow> academic" where
  "merge_bio a existing =
     (if nonempty (bio a) \<and> bio a \<noteq> bio existing then existing\<lparr>bio := bio a\<rparr> else existing)"

definition merge_taxonomies :: "academic \<Rightarrow> academic \<Rightarrow> bool \<times> academic" where
  "merge_taxonomies a existing =
     (case taxonomies a of
        None \<Rightarrow> (True, existing)
      | Some t \<Rightarrow>
          (case merge_categories t (remdups (map fst t)) (or_empty (taxonomies existing)) of
             (ok, ex) \<Rightarrow> (ok, existing\<lparr>taxonomies := Some ex\<rparr>)))"

definition merge_papers :: "academic \<Rightarrow> academic \<Rightarrow> academic" where
  "merge_papers a existing =
     (if nonempty (papers a)
      then existing\<lparr>papers := Some (merge_list paper_matches (or_empty (papers existing)) (or_empty (papers a)))\<rparr>
      else existing)"

definition merge_events :: "academic \<Rightarrow> academic \<Rightarrow> academic" where
  "merge_events a existing =
     (if nonempty (events a)
      then existing\<lparr>events := Some (merge_list event_matches (or_empty (events existing)) (or_empty (events a)))\<rparr>
      else existing)"

definition merge_connections :: "academic \<Rightarrow> academic \<Rightarrow> academic" where
  "merge_connections a existing =
     (if nonempty (connections a)
      then existing\<lparr>connections := Some (merge_list (=) (or_empty (connections existing)) (or_empty (connections a)))\<rparr>
      else existing)"

text \<open>
  The whole merge. The record is changed in place, so what was merged before a
  \<open>TypeError\<close> stays: the bio and the taxonomies reached; papers, events and
  connections are then not merged.
\<close>

definition merge :: "academic \<Rightarrow> academic \<Rightarrow> bool \<times> academic" where
  "merge existing a =
     (case merge_taxonomies a (merge_bio a existing) of
        (True, e) \<Rightarrow> (True, merge_connections a (merge_events a (merge_papers a e)))
      | (False, e) \<Rightarrow> (False, e))"

text \<open>
  \<open>addOrUpdateAcademic\<close>. Objects are modelled by value: the record stored under the
  key is the merged value, or the candidate itself for a new key. The results of
  \<open>addNoveltyTile\<close> and \<open>saveToLocalStorage\<close> are ignored, their effects are not. A
  \<open>TypeError\<close> of the merge is caught: the call returns \<open>false\<close> without saving.

  \<open>this.academics[key]\<close> is a property read. If the key is not in the catalog but
  names a member of \<open>Object.prototype\<close> (\<open>constructor\<close>, \<open>__proto__\<close>), the code
  takes the built-in for the existing record and writes the candidate's fields onto it.
  What that does to the built-ins is outside this model: the result is \<open>None\<close>.
\<close>

definition addOrUpdateAcademic ::
  "setItem \<Rightarrow> int \<Rightarrow> db \<Rightarrow> academic \<Rightarrow> (bool \<times> db) option" where
  "addOrUpdateAcademic F now d a =
     (if name a = [] then Some (False, d)
      else let key = normalizeNameKey (name a) in
        (case get_property (academics d) key of
           Inherited \<Rightarrow> None
         | Own existing \<Rightarrow>
             (case merge existing a of
                (True, e) \<Rightarrow>
                  (let d1 = d\<lparr>academics := AList.update key e (academics d)\<rparr>
                   in Some (True, snd (saveToLocalStorage F d1)))
              | (False, e) \<Rightarrow>
                  Some (False, d\<lparr>academics := AList.update key e (academics d)\<rparr>))
         | Missing \<Rightarrow>
             (let d1 = d\<lparr>academics := AList.update key a (academics d)\<rparr>;
                  d2 = snd (addNoveltyTile F now d1
                         \<lparr>ti_title = ''New Academic: '' @ name a,
                          ti_content = name a @ '' has been added to the database.'',
                          ti_date = Some now, ti_type = ''academic''\<rparr>)
              in Some (True, snd (saveToLocalStorage F d2)))))"

section \<open>Queries\<close>

text \<open>
  \<open>getAcademic\<close>: exact key, then case-insensitive name, then substring in either
  direction. The result is the stored object; the model returns it with the key it is
  stored under, which stands for the reference. The first step is a property read of
  the catalog, so a key that names a member of \<open>Object.prototype\<close> and is not in the
  catalog yields that built-in: \<open>Builtin\<close>.
\<close>

datatype resolved = Found string academic | Builtin | NotFound

definition found :: "(string \<times> academic) option \<Rightarrow> resolved" where
  "found r = (case r of None \<Rightarrow> NotFound | Some ka \<Rightarrow> Found (fst ka) (snd ka))"

definition getAcademic :: "db \<Rightarrow> string \<Rightarrow> resolved" where
  "getAcademic d nm =
     (if nm = [] then NotFound
      else let normalizedKey = normalizeNameKey nm; lowerName = toLowerCase nm in
        (case get_property (academics d) normalizedKey of
           Own a \<Rightarrow> Found normalizedKey a
         | Inherited \<Rightarrow> Builtin
         | Missing \<Rightarrow>
        (case find (\<lambda>ka. toLowerCase (name (snd ka)) = lowerName) (academics d) of
           Some ka \<Rightarrow> Found (fst ka) (snd ka)
         | None \<Rightarrow>
             found (find (\<lambda>ka. includes_str (toLowerCase (name (snd ka))) lowerName \<or>
                               includes_str lowerName (toLowerCase (name (snd ka))))
                      (academics d)))))"

text \<open>The criteria object: a dictionary; a criterion is supplied when its value is truthy.\<close>

type_synonym criteria = "string \<rightharpoonup> string"

definition taxonomyFields :: "string list" where
  "taxonomyFields = [''discipline'', ''tradition'', ''era'', ''methodology'', ''theme'']"

definition field_ok :: "criteria \<Rightarrow> academic \<Rightarrow> string \<Rightarrow> bool" where
  "field_ok c a field =
     (if nonempty (c field) then
        (let criteriaValue = toLowerCase (or_empty (c field)) in
         case taxonomies a of
           None \<Rightarrow> False
         | Some t \<Rightarrow>
             (case map_of t field of
                None \<Rightarrow> False
              | Some vals \<Rightarrow>
                  list_ex (\<lambda>v. includes_str (toLowerCase v) criteriaValue \<or>
                              includes_str criteriaValue (toLowerCase v)) vals))
      else True)"

definition name_ok :: "criteria \<Rightarrow> academic \<Rightarrow> bool" where
  "name_ok c a =
     (if nonempty (c ''name'')
      then includes_str (toLowerCase (name a)) (toLowerCase (or_empty (c ''name'')))
      else True)"

definition matches :: "criteria \<Rightarrow> academic \<Rightarrow> bool" where
  "matches c a = (name_ok c a \<and> list_all (field_ok c a) taxonomyFields)"

text \<open>
  The comparator of \<open>results.sort\<close>. \<open>localeCompare\<close> is the browser's collation and
  is a parameter.
\<close>

definition relevance :: "(string \<Rightarrow> string \<Rightarrow> int) \<Rightarrow> string \<Rightarrow> academic \<Rightarrow> academic \<Rightarrow> int" where
  "relevance localeCompare nameQuery a b =
     (let aNameMatch = (toLowerCase (name a) = nameQuery);
          bNameMatch = (toLowerCase (name b) = nameQuery) in
      if aNameMatch \<and> \<not> bNameMatch then -1
      else if \<not> aNameMatch \<and> bNameMatch then 1
      else let aNameIndex = indexOf (toLowerCase (name a)) nameQuery;
               bNameIndex = indexOf (toLowerCase (name b)) nameQuery in
        if aNameIndex \<noteq> -1 \<and> bNameIndex \<noteq> -1 then aNameIndex - bNameIndex
        else localeCompare (name a) (name b))"

text \<open>
  \<open>Array.prototype.sort\<close> with a comparator is stable: an insertion sort that puts an
  element before the first one it does not follow.
\<close>

fun insert_by :: "('a \<Rightarrow> 'a \<Rightarrow> int) \<Rightarrow> 'a \<Rightarrow> 'a list \<Rightarrow> 'a list" where
  "insert_by cmp x [] = [x]"
| "insert_by cmp x (y # ys) = (if cmp x y \<le> 0 then x # y # ys else y # insert_by cmp x ys)"

definition sort_by :: "('a \<Rightarrow> 'a \<Rightarrow> int) \<Rightarrow> 'a list \<Rightarrow> 'a list" where
  "sort_by cmp xs = foldr (insert_by cmp) xs []"

definition searchAcademics :: "(string \<Rightarrow> string \<Rightarrow> int) \<Rightarrow> db \<Rightarrow> criteria \<Rightarrow> academic list" where
  "searchAcademics localeCompare d c =
     (let results = filter (matches c) (values_of (academics d)) in
      if nonempty (c ''name'')
      then sort_by (relevance localeCompare (toLowerCase (or_empty (c ''name'')))) results
      else results)"

section \<open>Enrichment\<close>

text \<open>
  One round of \<open>academicData.connections.forEach\<close> in \<open>enrichDatabase\<close>.
  \<open>connectedAcademic\<close> is the stored object itself, so the two assignments to its
  \<open>connections\<close> are updates of the catalog at its key; it is then passed to
  \<open>addOrUpdateAcademic\<close>, whose result is ignored. The arrow of the tile's title is its
  three UTF-8 bytes. \<open>None\<close>: a built-in was taken for a record, here or in
  \<open>addOrUpdateAcademic\<close>.
\<close>

definition enrich_connection :: "setItem \<Rightarrow> int \<Rightarrow> string \<Rightarrow> string \<Rightarrow> db \<Rightarrow> db option" where
  "enrich_connection F now academicName connection d =
     (case getAcademic d connection of
        NotFound \<Rightarrow> Some d
      | Builtin \<Rightarrow> None
      | Found k connectedAcademic \<Rightarrow>
          (let c1 = (if connections connectedAcademic = None
                     then connectedAcademic\<lparr>connections := Some []\<rparr> else connectedAcademic);
               d1 = d\<lparr>academics := AList.update k c1 (academics d)\<rparr> in
           if academicName \<in> set (or_empty (connections c1)) then Some d1
           else
             (let c2 = c1\<lparr>connections := Some (or_empty (connections c1) @ [academicName])\<rparr>;
                  d2 = d1\<lparr>academics := AList.update k c2 (academics d1)\<rparr>
              in case addOrUpdateAcademic F now d2 c2 of
                   None \<Rightarrow> None
                 | Some r \<Rightarrow>
                     Some (snd (addNoveltyTile F now (snd r)
                       \<lparr>ti_title = ''New Connection: '' @ name c2 @ '' '' @ [CHR 0xE2, CHR 0x86, CHR 0x92] @ '' '' @ academicName,
                        ti_content = ''A connection between '' @ name c2 @ '' and '' @ academicName
                                       @ '' has been established.'',
                        ti_date = Some now, ti_type = ''connection''\<rparr>)))))"

text \<open>The \<open>forEach\<close> over the candidate's connections.\<close>

fun enrich_connections :: "setItem \<Rightarrow> int \<Rightarrow> string \<Rightarrow> string list \<Rightarrow> db \<Rightarrow> db option" where
  "enrich_connections F now academicName [] d = Some d"
| "enrich_connections F now academicName (c # cs) d =
     (case enrich_connection F now academicName c d of
        None \<Rightarrow> None
      | Some d' \<Rightarrow> enrich_connections F now academicName cs d')"

definition enrichDatabase :: "setItem \<Rightarrow> int \<Rightarrow> db \<Rightarrow> academic \<Rightarrow> (bool \<times> db) option" where
  "enrichDatabase F now d academicData =
     (if name academicData = [] then Some (False, d)
      else (case addOrUpdateAcademic F now d academicData of
              None \<Rightarrow> None
            | Some (False, d1) \<Rightarrow> Some (False, d1)
            | Some (True, d1) \<Rightarrow>
                (let d2 = snd (addNoveltyTile F now d1
                           \<lparr>ti_title = ''Database Enriched: '' @ name academicData,
                            ti_content = ''New information about '' @ name academicData
                                           @ '' has been added to the database from DeepSearch.'',
                            ti_date = Some now, ti_type = ''academic''\<rparr>)
                 in if nonempty (connections academicData)
                    then map_option (Pair True)
                           (enrich_connections F now (name academicData)
                              (or_empty (connections academicData)) d2)
                    else Some (True, d2))))"

section \<open>Export and import\<close>

text \<open>
  A JSON text is modelled by what \<open>JSON.parse\<close> makes of it: it throws (or yields
  \<open>null\<close>, whose property access throws), or yields a document. \<open>doc_academics\<close> is
  \<open>None\<close> when the property is falsy or not an object. For plain data (strings,
  integers, arrays, objects, absent properties) \<open>JSON.parse\<close> inverts
  \<open>JSON.stringify\<close>, so the text that \<open>exportToJSON\<close> returns is the document it
  was made from.
\<close>

record document =
  doc_academics :: "catalog option"
  doc_taxonomyCategories :: "(string \<times> string list) list option"
  doc_exportDate :: "int option"

datatype json_text = Unparsable | Doc document

definition exportToJSON :: "int \<Rightarrow> db \<Rightarrow> json_text" where
  "exportToJSON now d =
     Doc \<lparr>doc_academics = Some (academics d),
          doc_taxonomyCategories = Some (taxonomyCategories d),
          doc_exportDate = Some now\<rparr>"

text \<open>The decimal digits of a number, as a template literal prints it.\<close>

fun digits :: "nat \<Rightarrow> nat \<Rightarrow> string" where
  "digits 0 n = []"
| "digits (Suc fuel) n =
     (if n < 10 then [char_of (48 + n)] else digits fuel (n div 10) @ [char_of (48 + n mod 10)])"

definition decimal :: "nat \<Rightarrow> string" where
  "decimal n = digits (Suc n) n"

definition importFromJSON :: "setItem \<Rightarrow> int \<Rightarrow> db \<Rightarrow> json_text \<Rightarrow> bool \<times> db" where
  "importFromJSON F now d jsonData =
     (case jsonData of
        Unparsable \<Rightarrow> (False, d)
      | Doc importedData \<Rightarrow>
          (case doc_academics importedData of
             None \<Rightarrow> (False, d)
           | Some imported \<Rightarrow>
               (let backupAcademics = academics d;
                    d1 = d\<lparr>academics := imported\<rparr>;
                    d2 = (case doc_taxonomyCategories importedData of
                            None \<Rightarrow> d1
                          | Some t \<Rightarrow> d1\<lparr>taxonomyCategories := t\<rparr>)
                in case saveToLocalStorage F d2 of
                     (False, d3) \<Rightarrow> (False, d3\<lparr>academics := backupAcademics\<rparr>)
                   | (True, d3) \<Rightarrow>
                       (True, snd (addNoveltyTile F now d3
                          \<lparr>ti_title = ''Database Import'',
                           ti_content = ''Database imported with '' @ decimal (length imported)
                                          @ '' academics.'',
                           ti_date = Some now, ti_type = ''system''\<rparr>)))))"

section \<open>Extraction: regular expressions\<close>

text \<open>
  \<open>extractAcademicData\<close> works with regular expressions. Each one is modelled by a
  function that does what the backtracking matcher does on it. A matcher takes the text
  from a position on and returns what the match yields there, or \<open>None\<close>;
  \<open>first_match\<close> tries the positions from left to right, as \<open>String.prototype.match\<close>
  does.
\<close>

definition NL :: char where "NL = CHR 0x0A"
definition CR :: char where "CR = CHR 0x0D"

fun first_match :: "(string \<Rightarrow> 'a option) \<Rightarrow> string \<Rightarrow> 'a option" where
  "first_match m [] = m []"
| "first_match m (c # cs) = (case m (c # cs) of Some r \<Rightarrow> Some r | None \<Rightarrow> first_match m cs)"

text \<open>With the flag \<open>m\<close>, \<open>^\<close> holds at the start and after a line terminator.\<close>

fun first_match_line :: "(string \<Rightarrow> 'a option) \<Rightarrow> bool \<Rightarrow> string \<Rightarrow> 'a option" where
  "first_match_line m at_start [] = (if at_start then m [] else None)"
| "first_match_line m at_start (c # cs) =
     (case (if at_start then m (c # cs) else None) of
        Some r \<Rightarrow> Some r
      | None \<Rightarrow> first_match_line m (c = NL \<or> c = CR) cs)"

text \<open>A literal under the flag \<open>i\<close>; \<open>kw\<close> is given in lower case.\<close>

fun startsWith_ci :: "string \<Rightarrow> string \<Rightarrow> bool" where
  "startsWith_ci s [] = True"
| "startsWith_ci [] (q # qs) = False"
| "startsWith_ci (c # cs) (q # qs) = (lower_char c = q \<and> startsWith_ci cs qs)"

definition strip_ci :: "string \<Rightarrow> string \<Rightarrow> string option" where
  "strip_ci kw s = (if startsWith_ci s kw then Some (drop (length kw) s) else None)"

definition strip_cs :: "string \<Rightarrow> string \<Rightarrow> string option" where
  "strip_cs kw s = (if startsWith s kw then Some (drop (length kw) s) else None)"

text \<open>The first of the alternatives that matches at the position.\<close>

fun strip_any :: "string list \<Rightarrow> string \<Rightarrow> string option" where
  "strip_any [] s = None"
| "strip_any (kw # kws) s = (case strip_ci kw s of Some r \<Rightarrow> Some r | None \<Rightarrow> strip_any kws s)"

definition trim :: "string \<Rightarrow> string" where
  "trim s = rev (dropWhile is_space (rev (dropWhile is_space s)))"

definition is_digit :: "char \<Rightarrow> bool" where
  "is_digit c = (let n = (of_char c :: nat) in 48 \<le> n \<and> n \<le> 57)"

text \<open>
  \<open>s.split(sep)\<close> for a separator that never matches the empty string: \<open>sep\<close> gives
  the length of the separator that starts at a position. \<open>skip\<close> counts the characters
  of a separator still to be passed.
\<close>

fun split_by :: "(string \<Rightarrow> nat option) \<Rightarrow> nat \<Rightarrow> string \<Rightarrow> string \<Rightarrow> string list" where
  "split_by sep skip acc [] = [rev acc]"
| "split_by sep skip acc (c # cs) =
     (if skip > 0 then split_by sep (skip - 1) acc cs
      else (case sep (c # cs) of
              Some n \<Rightarrow> rev acc # split_by sep (n - 1) [] cs
            | None \<Rightarrow> split_by sep 0 (c # acc) cs))"

definition split :: "(string \<Rightarrow> nat option) \<Rightarrow> string \<Rightarrow> string list" where
  "split sep s = split_by sep 0 [] s"

text \<open>\<open>s.replace(re, '')\<close> without the flag \<open>g\<close>: the leftmost match is removed.\<close>

fun remove_first :: "(string \<Rightarrow> nat option) \<Rightarrow> string \<Rightarrow> string" where
  "remove_first m [] = []"
| "remove_first m (c # cs) =
     (case m (c # cs) of Some n \<Rightarrow> drop n (c # cs) | None \<Rightarrow> c # remove_first m cs)"

text \<open>
  The tail \<open>\s*([^\n]+)\<close> of the name patterns, on the text after the label. \<open>\s*\<close>
  takes the whole run of white space, line feeds included. If nothing follows the run,
  backtracking can only hand a white-space character to the group, whose text is then
  blank, or find no match; the caller rejects a blank text, and no later position can
  match, so both are \<open>None\<close>.
\<close>

definition rest_of_line :: "string \<Rightarrow> string option" where
  "rest_of_line r =
     (let r' = dropWhile is_space r in
      if r' = [] then None else Some (takeWhile (\<lambda>c. c \<noteq> NL) r'))"

text \<open>
  \<open>/^([^:\n]+)(?:\n|$)/m\<close> at a line start: the run up to a colon or line feed, if
  the line ends there; otherwise the longest part of it that ends before a carriage
  return, where \<open>$\<close> holds as well.
\<close>

definition first_line :: "string \<Rightarrow> string option" where
  "first_line s =
     (let run = takeWhile (\<lambda>c. c \<noteq> CHR '':'' \<and> c \<noteq> NL) s;
          rest = drop (length run) s;
          breaks = filter (\<lambda>l. run ! l = CR) [1..<length run] in
      if run = [] then None
      else if rest = [] \<or> startsWith rest [NL] then Some run
      else if breaks = [] then None
      else Some (take (last breaks) run))"

text \<open>
  The three name patterns in order. A pattern whose leftmost match has a blank group is
  passed over, and the next pattern is tried.
\<close>

definition nonblank :: "string option \<Rightarrow> string option" where
  "nonblank m = (case m of None \<Rightarrow> None | Some t \<Rightarrow> if trim t = [] then None else Some (trim t))"

definition name_patterns :: "(string \<Rightarrow> string option) list" where
  "name_patterns =
     [first_match (\<lambda>s. case strip_ci ''name:'' s of None \<Rightarrow> None | Some r \<Rightarrow> rest_of_line r),
      first_match (\<lambda>s. case strip_ci ''**name:**'' s of None \<Rightarrow> None | Some r \<Rightarrow> rest_of_line r),
      first_match_line first_line True]"

fun first_pattern :: "(string \<Rightarrow> string option) list \<Rightarrow> string \<Rightarrow> string option" where
  "first_pattern [] text = None"
| "first_pattern (p # ps) text =
     (case nonblank (p text) of Some t \<Rightarrow> Some t | None \<Rightarrow> first_pattern ps text)"

definition extract_name :: "string \<Rightarrow> string option" where
  "extract_name text = first_pattern name_patterns text"

section \<open>Extraction: bio\<close>

text \<open>
  \<open>(?:\n(?!Papers|Events|Connections|Taxonomies).+)*\<close> on the lines that follow the
  first one: a line is taken if it does not begin with a keyword and is not empty; the
  dot stops before a carriage return, which also ends the repetition.
\<close>

fun continuation :: "string list \<Rightarrow> string list" where
  "continuation [] = []"
| "continuation (l # ls) =
     (let seg = takeWhile (\<lambda>c. c \<noteq> CR) l in
      if strip_any [''papers'', ''events'', ''connections'', ''taxonomies''] l \<noteq> None \<or> seg = []
      then []
      else if seg = l then l # continuation ls else [seg])"

definition line_sep :: "string \<Rightarrow> nat option" where
  "line_sep s = (if startsWith s [NL] then Some 1 else None)"

text \<open>The tail \<open>\s*([^\n]+(?:\n(?!...).+)*)\<close> of the bio patterns, on the text after the label.\<close>

definition bio_tail :: "string \<Rightarrow> string option" where
  "bio_tail r =
     (let r' = dropWhile is_space r in
      if r' = [] then None
      else let first = takeWhile (\<lambda>c. c \<noteq> NL) r';
               after = drop (length first) r';
               more = (case after of [] \<Rightarrow> [] | c # t \<Rightarrow> continuation (split line_sep t))
           in Some (first @ concat (map (\<lambda>l. NL # l) more)))"

text \<open>A label with an optional middle part: \<open>kw(?:opt)?fin\<close>, the longer reading first.\<close>

definition strip_opt :: "string \<Rightarrow> string \<Rightarrow> string \<Rightarrow> string \<Rightarrow> string option" where
  "strip_opt kw opt fin s =
     (case strip_ci kw s of
        None \<Rightarrow> None
      | Some r \<Rightarrow>
          (case (case strip_ci opt r of None \<Rightarrow> None | Some r2 \<Rightarrow> strip_ci fin r2) of
             Some x \<Rightarrow> Some x
           | None \<Rightarrow> strip_ci fin r))"

definition after_label :: "(string \<Rightarrow> string option) \<Rightarrow> (string \<Rightarrow> string option) \<Rightarrow> string \<Rightarrow> string option" where
  "after_label label tail s = (case label s of None \<Rightarrow> None | Some r \<Rightarrow> tail r)"

definition bio_patterns :: "(string \<Rightarrow> string option) list" where
  "bio_patterns =
     [first_match (after_label (strip_opt ''bio'' ''graphy'' '':'') bio_tail),
      first_match (after_label (strip_opt ''**bio'' ''graphy'' '':**'') bio_tail),
      first_match_line (after_label (strip_any [''about:'', ''background:'']) bio_tail) True]"

text \<open>\<open>.replace(/\n\s*/g, ' ')\<close>: a line feed and the white space after it become one blank.\<close>

fun join_lines :: "bool \<Rightarrow> string \<Rightarrow> string" where
  "join_lines in_run [] = []"
| "join_lines in_run (c # cs) =
     (if c = NL then (if in_run then join_lines True cs else CHR '' '' # join_lines True cs)
      else if in_run \<and> is_space c then join_lines True cs
      else c # join_lines False cs)"

definition extract_bio :: "string \<Rightarrow> string" where
  "extract_bio text =
     (case first_pattern bio_patterns text of None \<Rightarrow> [] | Some b \<Rightarrow> join_lines False b)"

section \<open>Extraction: sections with items\<close>

text \<open>
  \<open>\s*([\s\S]*?)(?=(?:A|B|C):|\n\s*\n|$)\<close> on the text after a label: the group
  starts after the white space and is the shortest text that ends before a keyword
  with its colon, before a blank line, or at the end.
\<close>

definition blank_line :: "string \<Rightarrow> bool" where
  "blank_line s = (case s of [] \<Rightarrow> False | c # t \<Rightarrow> c = NL \<and> NL \<in> set (takeWhile is_space t))"

fun lazy_until :: "(string \<Rightarrow> bool) \<Rightarrow> string \<Rightarrow> string" where
  "lazy_until stop [] = []"
| "lazy_until stop (c # cs) = (if stop (c # cs) then [] else c # lazy_until stop cs)"

definition block_tail :: "string list \<Rightarrow> string \<Rightarrow> string option" where
  "block_tail keywords r =
     Some (lazy_until (\<lambda>s. strip_any keywords s \<noteq> None \<or> blank_line s) (dropWhile is_space r))"

definition block_patterns :: "(string \<Rightarrow> string option) list \<Rightarrow> string list \<Rightarrow> (string \<Rightarrow> string option) list" where
  "block_patterns labels keywords = map (\<lambda>l. first_match (after_label l (block_tail keywords))) labels"

text \<open>The bullet \<open>[-*\<bullet>]\<close>; the third one is three bytes in UTF-8.\<close>

definition bullet :: "string \<Rightarrow> nat option" where
  "bullet s =
     (if startsWith s ''-'' \<or> startsWith s ''*'' then Some 1
      else if startsWith s [CHR 0xE2, CHR 0x80, CHR 0xA2] then Some 3 else None)"

text \<open>The separator \<open>/\n\s*[-*\<bullet>]\s*/\<close> of the item lists.\<close>

definition bullet_sep :: "string \<Rightarrow> nat option" where
  "bullet_sep s =
     (case s of
        [] \<Rightarrow> None
      | c # t \<Rightarrow>
          if c \<noteq> NL then None
          else let w = takeWhile is_space t; t' = drop (length w) t in
            (case bullet t' of
               None \<Rightarrow> None
             | Some b \<Rightarrow> Some (1 + length w + b + length (takeWhile is_space (drop b t')))))"

text \<open>The separator \<open>/,\s*/\<close>.\<close>

definition comma_sep :: "string \<Rightarrow> nat option" where
  "comma_sep s =
     (case s of [] \<Rightarrow> None
      | c # t \<Rightarrow> if c = CHR '','' then Some (1 + length (takeWhile is_space t)) else None)"

text \<open>\<open>/\((\d{4})\)/\<close> and \<open>/,\s*(\d{4})/\<close>: the length of the match and the number.\<close>

definition parseInt :: "string \<Rightarrow> int" where
  "parseInt ds = foldl (\<lambda>n c. 10 * n + (int (of_char c) - 48)) 0 ds"

definition year_paren :: "string \<Rightarrow> (nat \<times> int) option" where
  "year_paren s =
     (if startsWith s ''('' \<and> length s \<ge> 6 \<and> list_all is_digit (take 4 (drop 1 s)) \<and> s ! 5 = CHR '')''
      then Some (6, parseInt (take 4 (drop 1 s))) else None)"

definition year_comma :: "string \<Rightarrow> (nat \<times> int) option" where
  "year_comma s =
     (case s of [] \<Rightarrow> None
      | c # t \<Rightarrow>
          if c \<noteq> CHR '','' then None
          else let w = takeWhile is_space t; ds = take 4 (drop (length w) t) in
            if length ds = 4 \<and> list_all is_digit ds then Some (1 + length w + 4, parseInt ds)
            else None)"

definition item_year :: "string \<Rightarrow> int option" where
  "item_year item =
     (case first_match year_paren item of
        Some m \<Rightarrow> Some (snd m)
      | None \<Rightarrow> map_option snd (first_match year_comma item))"

definition strip_years :: "string \<Rightarrow> string" where
  "strip_years item =
     trim (remove_first (\<lambda>s. map_option fst (year_comma s))
             (remove_first (\<lambda>s. map_option fst (year_paren s)) item))"

text \<open>\<open>year: year || 0\<close>.\<close>

definition year_or_0 :: "int option \<Rightarrow> int option" where
  "year_or_0 y = (case y of None \<Rightarrow> Some 0 | Some n \<Rightarrow> Some n)"

text \<open>
  \<open>/with\s+([^\.]+)/i\<close> at a position: the length of the match and the group. If
  nothing but a dot or the end follows the white space, the group can only be the last
  white-space character, and only if \<open>\s+\<close> keeps another one.
\<close>

definition with_clause :: "string \<Rightarrow> (nat \<times> string) option" where
  "with_clause s =
     (case strip_ci ''with'' s of
        None \<Rightarrow> None
      | Some r \<Rightarrow>
          (let w = takeWhile is_space r; cap = takeWhile (\<lambda>c. c \<noteq> CHR ''.'') (drop (length w) r) in
           if w = [] then None
           else if cap \<noteq> [] then Some (4 + length w + length cap, cap)
           else if length w \<ge> 2 then Some (4 + length w, [last w])
           else None))"

text \<open>The separator \<open>/(?:,|\sand\s)/g\<close> of the coauthors.\<close>

definition coauthor_sep :: "string \<Rightarrow> nat option" where
  "coauthor_sep s =
     (if startsWith s '','' then Some 1
      else if length s \<ge> 5 \<and> is_space (s ! 0) \<and> take 3 (drop 1 s) = ''and'' \<and> is_space (s ! 4)
      then Some 5 else None)"

definition paper_item :: "string \<Rightarrow> paper" where
  "paper_item item =
     (let year = item_year item; title = strip_years item in
      case first_match with_clause title of
        None \<Rightarrow> \<lparr>p_title = title, p_year = year_or_0 year, p_coauthors = []\<rparr>
      | Some m \<Rightarrow>
          \<lparr>p_title = trim (remove_first (\<lambda>s. map_option fst (with_clause s)) title),
           p_year = year_or_0 year,
           p_coauthors = filter (\<lambda>c. c \<noteq> []) (map trim (split coauthor_sep (snd m)))\<rparr>)"

text \<open>The label \<open>Papers(?:\s*\/\s*Publications)?:\<close>.\<close>

definition papers_label :: "string \<Rightarrow> string option" where
  "papers_label s =
     (case strip_ci ''papers'' s of
        None \<Rightarrow> None
      | Some r \<Rightarrow>
          (case (case strip_ci ''/'' (dropWhile is_space r) of
                   None \<Rightarrow> None
                 | Some r2 \<Rightarrow>
                     (case strip_ci ''publications'' (dropWhile is_space r2) of
                        None \<Rightarrow> None
                      | Some r3 \<Rightarrow> strip_ci '':'' r3)) of
             Some x \<Rightarrow> Some x
           | None \<Rightarrow> strip_ci '':'' r))"

definition extract_papers :: "string \<Rightarrow> paper list" where
  "extract_papers text =
     (case first_pattern
             (block_patterns [papers_label, strip_ci ''publications:'', strip_ci ''major works:'']
                [''events:'', ''connections:'', ''taxonomies:'']) text of
        None \<Rightarrow> []
      | Some papersText \<Rightarrow>
          map paper_item
            (filter (\<lambda>item. trim item \<noteq> [] \<and> \<not> startsWith (trim item) ''Publications:'')
               (split bullet_sep papersText)))"

section \<open>Extraction: connections\<close>

text \<open>\<open>.replace(/^\d+\.\s*/, '')\<close>.\<close>

definition strip_ordinal :: "string \<Rightarrow> string" where
  "strip_ordinal c =
     (let ds = takeWhile is_digit c; r = drop (length ds) c in
      if ds \<noteq> [] \<and> startsWith r ''.'' then dropWhile is_space (drop 1 r) else c)"

definition has_bullet :: "string \<Rightarrow> bool" where
  "has_bullet t =
     (includes_str t ''-'' \<or> includes_str t ''*'' \<or> includes_str t [CHR 0xE2, CHR 0x80, CHR 0xA2])"

definition extract_connections :: "string \<Rightarrow> string list" where
  "extract_connections text =
     (case first_pattern
             (block_patterns
                [strip_ci ''connections:'', strip_ci ''influences:'', strip_ci ''related academics:'']
                [''events:'', ''papers:'', ''taxonomies:'']) text of
        None \<Rightarrow> []
      | Some connectionsText \<Rightarrow>
          (let connectionItems = (if has_bullet connectionsText
                                  then split bullet_sep connectionsText
                                  else split comma_sep connectionsText)
           in map strip_ordinal
                (filter (\<lambda>c. c \<noteq> [] \<and> \<not> startsWith c ''Connections:'')
                   (map trim connectionItems))))"

section \<open>Extraction: taxonomies\<close>

text \<open>
  \<open>[:\s]+(.+)\<close> after the category word of
  \<open>/[-*\<bullet>]?\s*(discipline|tradition|era|methodology|theme)[s]?[:\s]+(.+)/i\<close>. If
  nothing that the dot accepts follows the separators, the group is the last separator
  that the dot accepts, provided another separator stays in front of it.
\<close>

definition tax_rest :: "string \<Rightarrow> string option" where
  "tax_rest r =
     (let sep = takeWhile (\<lambda>c. c = CHR '':'' \<or> is_space c) r;
          cap = takeWhile (\<lambda>c. c \<noteq> CR \<and> c \<noteq> NL) (drop (length sep) r);
          back = filter (\<lambda>j. sep ! j \<noteq> CR \<and> sep ! j \<noteq> NL) [1..<length sep] in
      if sep = [] then None
      else if cap \<noteq> [] then Some cap
      else if back = [] then None
      else Some [sep ! last back])"

fun tax_word :: "string list \<Rightarrow> string \<Rightarrow> (string \<times> string) option" where
  "tax_word [] s = None"
| "tax_word (kw # kws) s =
     (case strip_ci kw s of
        None \<Rightarrow> tax_word kws s
      | Some r \<Rightarrow>
          (case (case strip_ci ''s'' r of None \<Rightarrow> None | Some r2 \<Rightarrow> tax_rest r2) of
             Some cap \<Rightarrow> Some (kw, cap)
           | None \<Rightarrow>
               (case tax_rest r of Some cap \<Rightarrow> Some (kw, cap) | None \<Rightarrow> tax_word kws s)))"

definition tax_line :: "string \<Rightarrow> (string \<times> string) option" where
  "tax_line l = first_match (tax_word taxonomyFields) l"

definition add_tax_line ::
  "string \<Rightarrow> (string \<times> string list) list \<Rightarrow> (string \<times> string list) list" where
  "add_tax_line l acc =
     (case tax_line l of
        None \<Rightarrow> acc
      | Some (category, cap) \<Rightarrow>
          AList.update category
            (or_empty (map_of acc category) @ map trim (split comma_sep cap)) acc)"

definition extract_taxonomies :: "string \<Rightarrow> (string \<times> string list) list" where
  "extract_taxonomies text =
     (case first_pattern
             (block_patterns
                [strip_ci ''taxonomies:'', strip_ci ''categories:'', strip_ci ''classifications:'']
                [''events:'', ''papers:'', ''connections:'']) text of
        None \<Rightarrow> []
      | Some taxonomyText \<Rightarrow> fold add_tax_line (split line_sep taxonomyText) [])"

section \<open>Extraction: events\<close>

text \<open>
  \<open>/,\s*([^,\d]+)$/\<close> at a position: a comma, then to the end no comma and no digit.
\<close>

definition location_at :: "string \<Rightarrow> string option" where
  "location_at s =
     (case s of
        [] \<Rightarrow> None
      | c # t \<Rightarrow>
          if c \<noteq> CHR '','' \<or> t = [] \<or> list_ex (\<lambda>x. x = CHR '','' \<or> is_digit x) t then None
          else if dropWhile is_space t = [] then Some [last t]
          else Some (dropWhile is_space t))"

text \<open>The expression built from the location: \<open>,\s*\<close>, the location, the end.\<close>

definition location_suffix :: "string \<Rightarrow> string \<Rightarrow> nat option" where
  "location_suffix location s =
     (case s of
        [] \<Rightarrow> None
      | c # t \<Rightarrow> if c = CHR '','' \<and> dropWhile is_space t = location then Some (length s) else None)"

definition event_item :: "string \<Rightarrow> event" where
  "event_item item =
     (let year = item_year item;
          location = (case first_match location_at item of None \<Rightarrow> [] | Some l \<Rightarrow> trim l);
          title = strip_years item
      in \<lparr>e_title = (if location \<noteq> [] then trim (remove_first (location_suffix location) title)
                      else title),
          e_year = year_or_0 year, e_location = location\<rparr>)"

definition extract_events :: "string \<Rightarrow> event list" where
  "extract_events text =
     (case first_pattern
             (block_patterns
                [strip_ci ''events:'', strip_ci ''key dates:'', strip_ci ''timeline:'']
                [''papers:'', ''connections:'', ''taxonomies:'']) text of
        None \<Rightarrow> []
      | Some eventsText \<Rightarrow>
          map event_item
            (filter (\<lambda>item. trim item \<noteq> [] \<and> \<not> startsWith (trim item) ''Events:'')
               (split bullet_sep eventsText)))"

section \<open>Extraction: the whole\<close>

text \<open>
  \<open>/```(?:json)?\s*([\s\S]*?)```/\<close> at a position: the group, if a closing fence
  follows.
\<close>

definition fence :: "string \<Rightarrow> string option" where
  "fence s =
     (case strip_cs ''```'' s of
        None \<Rightarrow> None
      | Some r \<Rightarrow>
          (let r1 = (case strip_cs ''json'' r of None \<Rightarrow> r | Some x \<Rightarrow> x);
               r2 = dropWhile is_space r1 in
           if includes_str r2 ''```'' then Some (lazy_until (\<lambda>t. startsWith t ''```'') r2)
           else None))"

text \<open>
  The fenced-JSON branch. \<open>JSON.parse\<close> is a parameter: \<open>None\<close> when it throws or
  yields \<open>null\<close> (whose property access throws, which is caught as well), otherwise the
  value read as a record, its \<open>name\<close> empty when the property is falsy.
\<close>

definition json_branch :: "(string \<Rightarrow> academic option) \<Rightarrow> string \<Rightarrow> academic option" where
  "json_branch JSON_parse text =
     (case first_match fence text of
        None \<Rightarrow> None
      | Some body \<Rightarrow>
          if body = [] then None
          else (case JSON_parse (trim body) of
                  None \<Rightarrow> None
                | Some jsonData \<Rightarrow> if name jsonData \<noteq> [] then Some jsonData else None))"

text \<open>The section-based branch: without a name \<open>null\<close>, otherwise every field is filled.\<close>

definition extract_sections :: "string \<Rightarrow> academic option" where
  "extract_sections text =
     (case extract_name text of
        None \<Rightarrow> None
      | Some n \<Rightarrow>
          Some \<lparr>name = n, bio = Some (extract_bio text),
                taxonomies = Some (extract_taxonomies text),
                papers = Some (extract_papers text),
                events = Some (extract_events text),
                connections = Some (extract_connections text)\<rparr>)"

definition extractAcademicData :: "(string \<Rightarrow> academic option) \<Rightarrow> string \<Rightarrow> academic option" where
  "extractAcademicData JSON_parse text =
     (if text = [] \<or> \<not> includes_str text ''name'' \<or> \<not> includes_str text ''bio'' then None
      else (case json_branch JSON_parse text of
              Some jsonData \<Rightarrow> Some jsonData
            | None \<Rightarrow> extract_sections text))"

section \<open>Auxiliary notions and example states\<close>

text \<open>
  \<open>tax_covered ta ex k\<close>: the taxonomies \<open>ex\<close> have the category \<open>k\<close> themselves,
  with every value that \<open>ta\<close> lists for it.
\<close>

definition tax_covered :: "(string \<times> string list) list \<Rightarrow> (string \<times> string list) list \<Rightarrow> string \<Rightarrow> bool" where
  "tax_covered ta ex k = (\<exists>vs. map_of ex k = Some vs \<and> set (or_empty (map_of ta k)) \<subseteq> set vs)"

text \<open>
  \<open>settled ta ex k\<close>: merging the category \<open>k\<close> of \<open>ta\<close> into \<open>ex\<close> changes
  nothing and throws nothing: \<open>ex\<close> covers it, or inherits it while \<open>ta\<close> lists no
  value for it.
\<close>

definition settled :: "(string \<times> string list) list \<Rightarrow> (string \<times> string list) list \<Rightarrow> string \<Rightarrow> bool" where
  "settled ta ex k =
     (tax_covered ta ex k \<or>
      (map_of ex k = None \<and> k \<in> set prototype_members \<and> or_empty (map_of ta k) = []))"

text \<open>What a resolution found, without the record.\<close>

definition resolved_key :: "resolved \<Rightarrow> string property" where
  "resolved_key r = (case r of Found k a \<Rightarrow> Own k | Builtin \<Rightarrow> Inherited | NotFound \<Rightarrow> Missing)"

text \<open>The states and records at which the theorems below are instantiated.\<close>

definition empty_storage :: storage where
  "empty_storage = \<lparr>ls_academics = None, ls_backup = None, ls_noveltyTiles = None,
     ls_favorites = None, ls_pendingSubmissions = None\<rparr>"

definition derrida :: academic where
  "derrida = \<lparr>name = ''Jacques Derrida'', bio = Some ''French philosopher.'',
     taxonomies = Some [(''discipline'', [''Philosophy''])],
     papers = Some [\<lparr>p_title = ''of grammatology'', p_year = Some 1967, p_coauthors = []\<rparr>],
     events = None, connections = Some [''Michel Foucault'']\<rparr>"

definition derrida_update :: academic where
  "derrida_update = \<lparr>name = ''Jacques Derrida'', bio = None, taxonomies = None,
     papers = Some [\<lparr>p_title = ''Of Grammatology'', p_year = Some 1967, p_coauthors = []\<rparr>],
     events = None, connections = None\<rparr>"

text \<open>A candidate for the stored record with a category named like a built-in.\<close>

definition derrida_tagged :: academic where
  "derrida_tagged = \<lparr>name = ''Jacques Derrida'', bio = None,
     taxonomies = Some [(''constructor'', [''Deconstruction''])],
     papers = Some [\<lparr>p_title = ''Glas'', p_year = Some 1974, p_coauthors = []\<rparr>],
     events = None, connections = None\<rparr>"

definition example_db :: db where
  "example_db = \<lparr>academics = [(''jacques-derrida'', derrida)], noveltyTiles = [], favorites = [],
     pendingSubmissions = [], taxonomyCategories = [], localStorageSupported = True,
     localStorage = empty_storage\<rparr>"


text \<open>
  The rank by which \<open>searchAcademics\<close> turns out to order its results: exact matches
  of the name first, then the position of the query in the name.
\<close>

definition rank :: "string \<Rightarrow> academic \<Rightarrow> nat \<times> int" where
  "rank nameQuery a =
     (if toLowerCase (name a) = nameQuery then 0 else 1, indexOf (toLowerCase (name a)) nameQuery)"

text \<open>A collation to stand for \<open>localeCompare\<close> in examples: by character code.\<close>

fun codeCompare :: "string \<Rightarrow> string \<Rightarrow> int" where
  "codeCompare [] [] = 0"
| "codeCompare [] (y # ys) = -1"
| "codeCompare (x # xs) [] = 1"
| "codeCompare (x # xs) (y # ys) =
     (if (of_char x :: nat) < of_char y then -1
      else if (of_char y :: nat) < of_char x then 1 else codeCompare xs ys)"

definition bare :: "string \<Rightarrow> academic" where
  "bare n = \<lparr>name = n, bio = None, taxonomies = None, papers = None, events = None,
     connections = None\<rparr>"

definition michel_db :: db where
  "michel_db = \<lparr>academics = [(''michel-henry'', bare ''Michel Henry''),
                              (''michel-foucault'', bare ''Michel Foucault'')],
     noveltyTiles = [], favorites = [], pendingSubmissions = [], taxonomyCategories = [],
     localStorageSupported = True, localStorage = empty_storage\<rparr>"





text \<open>
  A call of \<open>saveToLocalStorage\<close> fails its verification: the four writes return and
  the catalog slot read back does not parse to an object.
\<close>

definition verification_fails :: "setItem \<Rightarrow> db \<Rightarrow> bool" where
  "verification_fails F d =
     (localStorageSupported d \<and>
      (case try_writes F (createBackup F d) of
         Inl x \<Rightarrow> False
       | Inr d4 \<Rightarrow> \<not> verified (ls_academics (localStorage d4))))"

text \<open>The catalog that the backup slot holds when the verification runs, if it holds one.\<close>

definition backup_catalog :: "setItem \<Rightarrow> db \<Rightarrow> catalog option" where
  "backup_catalog F d =
     (case try_writes F (createBackup F d) of
        Inl x \<Rightarrow> None
      | Inr d4 \<Rightarrow> (case ls_backup (localStorage d4) of Some (JObject c) \<Rightarrow> Some c | _ \<Rightarrow> None))"

text \<open>A storage that writes the backup slot as asked and leaves it alone otherwise.\<close>

definition backup_intact :: "setItem \<Rightarrow> bool" where
  "backup_intact F =
     ((\<forall>old new. F KBackup old new = Inr new) \<and>
      (\<forall>k old new s. k \<noteq> KBackup \<longrightarrow> F k old new = Inr s \<longrightarrow> ls_backup s = ls_backup new))"

text \<open>A storage that garbles what is written to the catalog slot.\<close>

definition garbling :: setItem where
  "garbling k old new =
     (if k = KAcademics then Inr (new\<lparr>ls_academics := Some Garbage\<rparr>) else Inr new)"

text \<open>A state whose catalog in memory is ahead of the persisted one, which is empty.\<close>

definition unsaved_db :: db where
  "unsaved_db = example_db\<lparr>localStorage := empty_storage\<lparr>ls_academics := Some (JObject [])\<rparr>\<rparr>"

definition offline_db :: db where
  "offline_db = example_db\<lparr>localStorageSupported := False\<rparr>"

text \<open>
  The catalog as \<open>addOrUpdateAcademic\<close> builds it: one entry per key, each record
  under the key that its name normalizes to. Under this invariant the object that
  \<open>enrichDatabase\<close> passes to \<open>addOrUpdateAcademic\<close> is the one already stored under
  its key, so modelling objects by value loses nothing.
\<close>

definition catalog_wf :: "catalog \<Rightarrow> bool" where
  "catalog_wf c =
     (distinct (map fst c) \<and> list_all (\<lambda>ka. fst ka = normalizeNameKey (name (snd ka))) c)"

text \<open>The keys of a catalog with the names stored under them.\<close>

definition key_names :: "catalog \<Rightarrow> (string \<times> string) list" where
  "key_names c = map (\<lambda>ka. (fst ka, name (snd ka))) c"

text \<open>
  \<open>extends d d'\<close>: the catalog of \<open>d'\<close> has the keys and names of that of \<open>d\<close>, and
  each record has at least the connections it had.
\<close>

definition extends :: "db \<Rightarrow> db \<Rightarrow> bool" where
  "extends d d' =
     (key_names (academics d') = key_names (academics d) \<and>
      (\<forall>k r. map_of (academics d) k = Some r \<longrightarrow>
         (\<exists>r'. map_of (academics d') k = Some r' \<and>
               set (or_empty (connections r)) \<subseteq> set (or_empty (connections r')))))"

definition levinas_db :: db where
  "levinas_db = \<lparr>academics = [(''emmanuel-levinas'', bare ''Emmanuel Levinas'')],
     noveltyTiles = [], favorites = [], pendingSubmissions = [], taxonomyCategories = [],
     localStorageSupported = True, localStorage = empty_storage\<rparr>"

definition derrida_levinas :: academic where
  "derrida_levinas = \<lparr>name = ''Jacques Derrida'', bio = None, taxonomies = None, papers = None,
     events = None, connections = Some [''Emmanuel Levinas'']\<rparr>"

text \<open>The text of the extraction scenario: six labelled lines and two bullet lists.\<close>

definition derrida_text :: string where
  "derrida_text =
     ''Name: Jacques Derrida'' @ [NL] @
     ''Bio: French philosopher known for deconstruction.'' @ [NL] @
     ''Papers:'' @ [NL] @
     ''- Of Grammatology (1967)'' @ [NL] @
     ''- Writing and Difference, 1967'' @ [NL] @
     ''Connections:'' @ [NL] @
     ''- Michel Foucault'' @ [NL] @
     ''- Emmanuel Levinas''"



text \<open>
  A fenced block with the JSON object of two properties, \<open>name\<close> and \<open>bio\<close>, and what
  \<open>JSON.parse\<close> makes of that object.
\<close>

definition quoted :: "string \<Rightarrow> string" where
  "quoted s = CHR 0x22 # s @ [CHR 0x22]"

definition derrida_json :: string where
  "derrida_json =
     ''{'' @ quoted ''name'' @ '': '' @ quoted ''Jacques Derrida'' @ '', '' @
     quoted ''bio'' @ '': '' @ quoted ''French philosopher.'' @ ''}''"


definition parse_derrida_json :: "string \<Rightarrow> academic option" where
  "parse_derrida_json s =
     (if s = derrida_json
      then Some ((bare ''Jacques Derrida'')\<lparr>bio := Some ''French philosopher.''\<rparr>)
      else None)"

section \<open>Fields of a merged record\<close>

lemma merge_bio_fields:
  "name (merge_bio a x) = name x"
  "bio (merge_bio a x) = (if nonempty (bio a) \<and> bio a \<noteq> bio x then bio a else bio x)"
  "taxonomies (merge_bio a x) = taxonomies x"
  "papers (merge_bio a x) = papers x"
  "events (merge_bio a x) = events x"
  "connections (merge_bio a x) = connections x"
  "academic.more (merge_bio a x) = academic.more x"
  by (simp_all add: merge_bio_def)

lemma merge_taxonomies_fields:
  "name (snd (merge_taxonomies a x)) = name x"
  "bio (snd (merge_taxonomies a x)) = bio x"
  "taxonomies (snd (merge_taxonomies a x)) =
     (case taxonomies a of None \<Rightarrow> taxonomies x
      | Some t \<Rightarrow> Some (snd (merge_categories t (remdups (map fst t)) (or_empty (taxonomies x)))))"
  "papers (snd (merge_taxonomies a x)) = papers x"
  "events (snd (merge_taxonomies a x)) = events x"
  "connections (snd (merge_taxonomies a x)) = connections x"
  "academic.more (snd (merge_taxonomies a x)) = academic.more x"
  by (simp_all add: merge_taxonomies_def split: option.splits prod.splits)

lemma fst_merge_taxonomies:
  "fst (merge_taxonomies a x) =
     (case taxonomies a of None \<Rightarrow> True
      | Some t \<Rightarrow> fst (merge_categories t (remdups (map fst t)) (or_empty (taxonomies x))))"
  by (simp add: merge_taxonomies_def split: option.splits prod.splits)

lemma merge_papers_fields:
  "name (merge_papers a x) = name x"
  "bio (merge_papers a x) = bio x"
  "taxonomies (merge_papers a x) = taxonomies x"
  "papers (merge_papers a x) =
     (if nonempty (papers a)
      then Some (merge_list paper_matches (or_empty (papers x)) (or_empty (papers a))) else papers x)"
  "events (merge_papers a x) = events x"
  "connections (merge_papers a x) = connections x"
  "academic.more (merge_papers a x) = academic.more x"
  by (simp_all add: merge_papers_def)

lemma merge_events_fields:
  "name (merge_events a x) = name x"
  "bio (merge_events a x) = bio x"
  "taxonomies (merge_events a x) = taxonomies x"
  "papers (merge_events a x) = papers x"
  "events (merge_events a x) =
     (if nonempty (events a)
      then Some (merge_list event_matches (or_empty (events x)) (or_empty (events a))) else events x)"
  "connections (merge_events a x) = connections x"
  "academic.more (merge_events a x) = academic.more x"
  by (simp_all add: merge_events_def)

lemma merge_connections_fields:
  "name (merge_connections a x) = name x"
  "bio (merge_connections a x) = bio x"
  "taxonomies (merge_connections a x) = taxonomies x"
  "papers (merge_connections a x) = papers x"
  "events (merge_connections a x) = events x"
  "connections (merge_connections a x) =
     (if nonempty (connections a)
      then Some (merge_list (=) (or_empty (connections x)) (or_empty (connections a)))
      else connections x)"
  "academic.more (merge_connections a x) = academic.more x"
  by (simp_all add: merge_connections_def)

lemmas merge_fields = merge_bio_fields merge_taxonomies_fields merge_papers_fields
  merge_events_fields merge_connections_fields

lemma merge_unfold:
  "merge e a =
     (if fst (merge_taxonomies a (merge_bio a e))
      then (True, merge_connections a (merge_events a (merge_papers a
                    (snd (merge_taxonomies a (merge_bio a e))))))
      else (False, snd (merge_taxonomies a (merge_bio a e))))"
  by (cases "merge_taxonomies a (merge_bio a e)") (auto simp: merge_def)

lemma fst_merge:
  "fst (merge e a) =
     (case taxonomies a of None \<Rightarrow> True
      | Some t \<Rightarrow> fst (merge_categories t (remdups (map fst t)) (or_empty (taxonomies e))))"
  by (simp add: merge_unfold fst_merge_taxonomies merge_fields split: option.splits)

lemma name_merge: "name (snd (merge e a)) = name e"
  by (simp add: merge_unfold merge_fields)

lemma bio_merge:
  "bio (snd (merge e a)) = (if nonempty (bio a) \<and> bio a \<noteq> bio e then bio a else bio e)"
  by (simp add: merge_unfold merge_fields)

lemma taxonomies_merge:
  "taxonomies (snd (merge e a)) =
     (case taxonomies a of None \<Rightarrow> taxonomies e
      | Some t \<Rightarrow> Some (snd (merge_categories t (remdups (map fst t)) (or_empty (taxonomies e)))))"
  by (simp add: merge_unfold merge_fields split: option.splits)

lemma papers_merge:
  "papers (snd (merge e a)) =
     (if fst (merge e a) \<and> nonempty (papers a)
      then Some (merge_list paper_matches (or_empty (papers e)) (or_empty (papers a))) else papers e)"
  by (simp add: merge_unfold merge_fields)

lemma events_merge:
  "events (snd (merge e a)) =
     (if fst (merge e a) \<and> nonempty (events a)
      then Some (merge_list event_matches (or_empty (events e)) (or_empty (events a))) else events e)"
  by (simp add: merge_unfold merge_fields)

lemma connections_merge:
  "connections (snd (merge e a)) =
     (if fst (merge e a) \<and> nonempty (connections a)
      then Some (merge_list (=) (or_empty (connections e)) (or_empty (connections a)))
      else connections e)"
  by (simp add: merge_unfold merge_fields)

lemma more_merge: "academic.more (snd (merge e a)) = academic.more e"
  by (simp add: merge_unfold merge_fields)

section \<open>Merging lists\<close>

lemma merge_list_append: "\<exists>zs. merge_list same ex new = ex @ zs"
proof (induction new arbitrary: ex)
  case Nil then show ?case by (simp add: merge_list_def)
next
  case (Cons y ys)
  obtain zs where "merge_list same (push_unless same y ex) ys = push_unless same y ex @ zs"
    using Cons.IH by blast
  moreover have "\<exists>us. push_unless same y ex = ex @ us" by (simp add: push_unless_def)
  ultimately show ?case by (auto simp: merge_list_def)
qed

lemma merge_list_keeps:
  "list_ex (\<lambda>e. same e x) ex \<Longrightarrow> list_ex (\<lambda>e. same e x) (merge_list same ex new)"
  using merge_list_append[of same ex new] by (auto simp: list_ex_iff)

lemma merge_list_covers:
  "(\<And>y. same y y) \<Longrightarrow> x \<in> set new \<Longrightarrow> list_ex (\<lambda>e. same e x) (merge_list same ex new)"
proof (induction new arbitrary: ex)
  case Nil then show ?case by simp
next
  case (Cons y ys)
  have step: "merge_list same ex (y # ys) = merge_list same (push_unless same y ex) ys"
    by (simp add: merge_list_def)
  show ?case
  proof (cases "x = y")
    case True
    have "list_ex (\<lambda>e. same e x) (push_unless same y ex)"
      using Cons.prems(1) True by (auto simp: push_unless_def list_ex_iff)
    then show ?thesis unfolding step by (rule merge_list_keeps)
  next
    case False
    then have "x \<in> set ys" using Cons.prems(2) by simp
    then show ?thesis unfolding step using Cons.IH Cons.prems(1) by blast
  qed
qed

lemma merge_list_id:
  "\<forall>x \<in> set new. list_ex (\<lambda>e. same e x) ex \<Longrightarrow> merge_list same ex new = ex"
  unfolding merge_list_def
  by (induction new) (auto simp: push_unless_def)

lemma merge_list_idem:
  "(\<And>y. same y y) \<Longrightarrow> merge_list same (merge_list same ex new) new = merge_list same ex new"
  by (rule merge_list_id) (auto intro: merge_list_covers)

lemma merge_list_self: "(\<And>y. same y y) \<Longrightarrow> merge_list same xs xs = xs"
  by (rule merge_list_id) (auto simp: list_ex_iff)

lemma set_merge_list_eq: "set (merge_list (=) ex new) = set ex \<union> set new"
  unfolding merge_list_def
  by (induction new arbitrary: ex) (auto simp: push_unless_def list_ex_iff)

section \<open>Saving leaves the catalog alone\<close>

lemma academics_createBackup: "academics (createBackup F d) = academics d"
  by (auto simp: createBackup_def Let_def split: sum.splits)

lemma supported_createBackup: "localStorageSupported (createBackup F d) = localStorageSupported d"
  by (auto simp: createBackup_def Let_def split: sum.splits)

lemma academics_save_catch: "academics (snd (save_catch F e d)) = academics d"
  by (auto simp: save_catch_def Let_def split: sum.splits)

lemma wb_Inr: "well_behaved F \<Longrightarrow> F k old new = Inr s \<Longrightarrow> s = new"
  unfolding well_behaved_def by (metis sum.inject(2) sum.distinct(1))

lemma try_writes_Inl: "try_writes F d = Inl (e, d') \<Longrightarrow> academics d' = academics d \<and> noveltyTiles d' = noveltyTiles d"
  by (auto simp: try_writes_def Let_def split: sum.splits)

lemma try_writes_Inr:
  "try_writes F d = Inr d' \<Longrightarrow> academics d' = academics d \<and> noveltyTiles d' = noveltyTiles d"
  by (auto simp: try_writes_def Let_def split: sum.splits)

lemma try_writes_verified:
  assumes wb: "well_behaved F" and "try_writes F d = Inr d'"
  shows "verified (ls_academics (localStorage d'))"
  using assms(2)
  by (auto simp: try_writes_def Let_def verified_def split: sum.splits dest!: wb_Inr[OF wb])

lemma academics_saveToLocalStorage:
  assumes wb: "well_behaved F"
  shows "academics (snd (saveToLocalStorage F d)) = academics d"
  by (auto simp: saveToLocalStorage_def academics_save_catch academics_createBackup
        try_writes_verified[OF wb] split: sum.splits dest!: try_writes_Inl try_writes_Inr)

lemma academics_addNoveltyTile:
  "well_behaved F \<Longrightarrow> academics (snd (addNoveltyTile F now d t)) = academics d"
  by (simp add: addNoveltyTile_def Let_def academics_saveToLocalStorage)

section \<open>Merging a record twice\<close>

lemma get_property_Own: "map_of obj k = Some v \<Longrightarrow> get_property obj k = Own v"
  by (simp add: get_property_def)

lemma get_property_cases:
  obtains (own) v where "map_of obj k = Some v" "get_property obj k = Own v"
  | (inherited) "map_of obj k = None" "k \<in> set prototype_members" "get_property obj k = Inherited"
  | (missing) "map_of obj k = None" "k \<notin> set prototype_members" "get_property obj k = Missing"
  by (cases "map_of obj k") (auto simp: get_property_def)

lemma settled_id: "settled ta ex k \<Longrightarrow> merge_category ta k ex = Some ex"
proof (unfold settled_def, erule disjE)
  assume "tax_covered ta ex k"
  then obtain vs where vs: "map_of ex k = Some vs" "set (or_empty (map_of ta k)) \<subseteq> set vs"
    by (auto simp: tax_covered_def)
  have "merge_list (=) vs (or_empty (map_of ta k)) = vs"
    using vs(2) by (intro merge_list_id) (auto simp: list_ex_iff)
  then show ?thesis
    using vs(1) by (simp add: merge_category_def get_property_Own update_triv)
next
  assume "map_of ex k = None \<and> k \<in> set prototype_members \<and> or_empty (map_of ta k) = []"
  then show ?thesis by (simp add: merge_category_def get_property_def)
qed

lemma merge_category_settles:
  assumes "merge_category ta k ex = Some ex'"
  shows "settled ta ex' k"
proof (cases rule: get_property_cases[of ex k])
  case (own v)
  then have "ex' = AList.update k (merge_list (=) v (or_empty (map_of ta k))) ex"
    using assms by (simp add: merge_category_def)
  then show ?thesis by (simp add: settled_def tax_covered_def update_conv' set_merge_list_eq)
next
  case inherited
  then have "ex' = ex \<and> or_empty (map_of ta k) = []"
    using assms by (auto simp: merge_category_def split: if_splits)
  then show ?thesis using inherited by (simp add: settled_def)
next
  case missing
  then have "ex' = AList.update k (merge_list (=) [] (or_empty (map_of ta k))) ex"
    using assms by (simp add: merge_category_def)
  then show ?thesis by (simp add: settled_def tax_covered_def update_conv' set_merge_list_eq)
qed

lemma merge_category_map_of:
  assumes "merge_category ta k ex = Some ex'" "k' \<noteq> k"
  shows "map_of ex' k' = map_of ex k'"
  using assms
  by (cases rule: get_property_cases[of ex k])
     (auto simp: merge_category_def update_conv' split: if_splits)

lemma merge_category_keeps:
  assumes "merge_category ta k ex = Some ex'" "settled ta ex k'"
  shows "settled ta ex' k'"
proof (cases "k' = k")
  case True
  then show ?thesis using merge_category_settles[OF assms(1)] by simp
next
  case False
  have "map_of ex' k' = map_of ex k'" by (rule merge_category_map_of[OF assms(1) False])
  then show ?thesis using assms(2) by (simp add: settled_def tax_covered_def)
qed

lemma merge_categories_keeps:
  "settled ta ex k' \<Longrightarrow> settled ta (snd (merge_categories ta ks ex)) k'"
proof (induction ks arbitrary: ex)
  case Nil then show ?case by simp
next
  case (Cons k ks)
  show ?case
  proof (cases "merge_category ta k ex")
    case None then show ?thesis using Cons.prems by simp
  next
    case (Some ex')
    then show ?thesis
      using Cons.IH[OF merge_category_keeps[OF Some Cons.prems]] by simp
  qed
qed

lemma merge_categories_id:
  "\<forall>k \<in> set ks. settled ta ex k \<Longrightarrow> merge_categories ta ks ex = (True, ex)"
  by (induction ks) (auto simp: settled_id)

lemma merge_categories_idem:
  "merge_categories ta ks (snd (merge_categories ta ks ex)) = merge_categories ta ks ex"
proof (induction ks arbitrary: ex)
  case Nil then show ?case by simp
next
  case (Cons k ks)
  show ?case
  proof (cases "merge_category ta k ex")
    case None then show ?thesis by simp
  next
    case (Some ex')
    let ?r = "merge_categories ta ks ex'"
    have "settled ta (snd ?r) k"
      by (rule merge_categories_keeps[OF merge_category_settles[OF Some]])
    then have "merge_category ta k (snd ?r) = Some (snd ?r)" by (rule settled_id)
    then show ?thesis using Some Cons.IH[of ex'] by simp
  qed
qed

lemma merge_categories_self:
  "merge_categories ta (remdups (map fst ta)) ta = (True, ta)"
proof (rule merge_categories_id, rule ballI)
  fix k assume "k \<in> set (remdups (map fst ta))"
  then have "k \<in> fst ` set ta" by simp
  then obtain vs where "map_of ta k = Some vs"
    by (metis domD dom_map_of_conv_image_fst)
  then show "settled ta ta k" by (simp add: settled_def tax_covered_def or_empty_def)
qed

lemma paper_matches_refl: "paper_matches p p" by (simp add: paper_matches_def)
lemma event_matches_refl: "event_matches e e" by (simp add: event_matches_def)

lemma fst_merge_idem: "fst (merge (snd (merge e a)) a) = fst (merge e a)"
  by (cases "taxonomies a")
     (simp_all add: fst_merge taxonomies_merge or_empty_def merge_categories_idem)

lemma merge_idem: "merge (snd (merge e a)) a = merge e a"
proof (rule prod_eqI)
  show "fst (merge (snd (merge e a)) a) = fst (merge e a)" by (rule fst_merge_idem)
  show "snd (merge (snd (merge e a)) a) = snd (merge e a)"
  proof (rule academic.equality)
    show "taxonomies (snd (merge (snd (merge e a)) a)) = taxonomies (snd (merge e a))"
      by (cases "taxonomies a")
         (simp_all add: taxonomies_merge or_empty_def merge_categories_idem)
    show "papers (snd (merge (snd (merge e a)) a)) = papers (snd (merge e a))"
      by (simp add: papers_merge[of "snd (merge e a)"] fst_merge_idem)
         (simp add: papers_merge or_empty_def merge_list_idem paper_matches_refl)
    show "events (snd (merge (snd (merge e a)) a)) = events (snd (merge e a))"
      by (simp add: events_merge[of "snd (merge e a)"] fst_merge_idem)
         (simp add: events_merge or_empty_def merge_list_idem event_matches_refl)
    show "connections (snd (merge (snd (merge e a)) a)) = connections (snd (merge e a))"
      by (simp add: connections_merge[of "snd (merge e a)"] fst_merge_idem)
         (simp add: connections_merge or_empty_def merge_list_idem)
  qed (simp_all add: name_merge bio_merge more_merge)
qed

lemma fst_merge_self: "fst (merge a a)"
  by (cases "taxonomies a") (simp_all add: fst_merge or_empty_def merge_categories_self)

lemma merge_self: "merge a a = (True, a)"
proof (rule prod_eqI)
  show "fst (merge a a) = fst (True, a)" using fst_merge_self by simp
  have "snd (merge a a) = a"
  proof (rule academic.equality)
    show "taxonomies (snd (merge a a)) = taxonomies a"
      by (cases "taxonomies a") (simp_all add: taxonomies_merge or_empty_def merge_categories_self)
    show "papers (snd (merge a a)) = papers a"
      by (cases "papers a") (simp_all add: papers_merge or_empty_def nonempty_def merge_list_self paper_matches_refl)
    show "events (snd (merge a a)) = events a"
      by (cases "events a") (simp_all add: events_merge or_empty_def nonempty_def merge_list_self event_matches_refl)
    show "connections (snd (merge a a)) = connections a"
      by (cases "connections a") (simp_all add: connections_merge or_empty_def nonempty_def merge_list_self)
  qed (simp_all add: name_merge bio_merge more_merge)
  then show "snd (merge a a) = snd (True, a)" by simp
qed

lemma update_update_same: "AList.update k v (AList.update k w al) = AList.update k v al"
  by (induction al) auto

section \<open>Idempotence and deduplication\<close>

lemma well_behaved_faithful: "well_behaved faithful"
  by (simp add: well_behaved_def faithful_def)

lemma addOrUpdateAcademic_Own:
  assumes "well_behaved F" "name a \<noteq> []"
    "map_of (academics d) (normalizeNameKey (name a)) = Some e"
  shows "\<exists>d'. addOrUpdateAcademic F now d a = Some (fst (merge e a), d') \<and>
              academics d' = AList.update (normalizeNameKey (name a)) (snd (merge e a)) (academics d)"
  using assms(2,3)
  by (cases "merge e a")
     (auto simp: addOrUpdateAcademic_def Let_def get_property_Own
        academics_saveToLocalStorage[OF assms(1)] split: bool.splits)

lemma addOrUpdateAcademic_Missing:
  assumes "well_behaved F" "name a \<noteq> []"
    "get_property (academics d) (normalizeNameKey (name a)) = Missing"
  shows "\<exists>d'. addOrUpdateAcademic F now d a = Some (True, d') \<and>
              academics d' = AList.update (normalizeNameKey (name a)) a (academics d)"
  using assms(2,3)
  by (simp add: addOrUpdateAcademic_def Let_def academics_saveToLocalStorage[OF assms(1)]
        academics_addNoveltyTile[OF assms(1)])

lemma addOrUpdateAcademic_Inherited:
  "name a \<noteq> [] \<Longrightarrow> get_property (academics d) (normalizeNameKey (name a)) = Inherited \<Longrightarrow>
   addOrUpdateAcademic F now d a = None"
  by (simp add: addOrUpdateAcademic_def Let_def)

text \<open>
  Claim C5. \<open>addOrUpdateAcademic\<close> is idempotent. For a candidate with a non-empty
  name and any state in which the candidate's key is in the catalog or is not the name
  of a member of \<open>Object.prototype\<close>, over a storage that may refuse writes but does
  not corrupt them, the second call returns what the first returned and leaves the
  catalog, hence the record under the candidate's key, as the first left it: no paper,
  event, connection or taxonomy value is added again and the bio stays. This holds as
  well when the merge throws and the calls return \<open>false\<close>.
\<close>

theorem addOrUpdateAcademic_idempotent:
  assumes "well_behaved F" and "name a \<noteq> []"
    and "get_property (academics d) (normalizeNameKey (name a)) \<noteq> Inherited"
  shows "\<exists>ok d1 d2.
           addOrUpdateAcademic F now1 d a = Some (ok, d1) \<and>
           addOrUpdateAcademic F now2 d1 a = Some (ok, d2) \<and>
           academics d2 = academics d1 \<and>
           map_of (academics d2) (normalizeNameKey (name a)) =
             map_of (academics d1) (normalizeNameKey (name a)) \<and>
           map_of (academics d1) (normalizeNameKey (name a)) \<noteq> None"
proof (cases rule: get_property_cases[of "academics d" "normalizeNameKey (name a)"])
  case (own e)
  from addOrUpdateAcademic_Own[OF assms(1,2) own(1), of now1]
  obtain d1 where d1: "addOrUpdateAcademic F now1 d a = Some (fst (merge e a), d1)"
    "academics d1 = AList.update (normalizeNameKey (name a)) (snd (merge e a)) (academics d)"
    by blast
  have m1: "map_of (academics d1) (normalizeNameKey (name a)) = Some (snd (merge e a))"
    by (simp add: d1(2) update_conv')
  from addOrUpdateAcademic_Own[OF assms(1,2) m1, of now2]
  obtain d2 where d2: "addOrUpdateAcademic F now2 d1 a = Some (fst (merge e a), d2)"
    "academics d2 = academics d1"
    by (auto simp: merge_idem d1(2) update_update_same)
  show ?thesis using d1(1) d2 m1 by auto
next
  case inherited
  then show ?thesis using assms(3) by simp
next
  case missing
  from addOrUpdateAcademic_Missing[OF assms(1,2) missing(3), of now1]
  obtain d1 where d1: "addOrUpdateAcademic F now1 d a = Some (True, d1)"
    "academics d1 = AList.update (normalizeNameKey (name a)) a (academics d)"
    by blast
  have m1: "map_of (academics d1) (normalizeNameKey (name a)) = Some a"
    by (simp add: d1(2) update_conv')
  from addOrUpdateAcademic_Own[OF assms(1,2) m1, of now2]
  obtain d2 where d2: "addOrUpdateAcademic F now2 d1 a = Some (True, d2)"
    "academics d2 = academics d1"
    by (auto simp: merge_self d1(2) update_update_same)
  show ?thesis using d1(1) d2 m1 by auto
qed

lemma key_derrida: "normalizeNameKey ''Jacques Derrida'' = ''jacques-derrida''"
  by code_simp

lemma example_db_own:
  "get_property (academics example_db) (normalizeNameKey (name derrida_update)) \<noteq> Inherited"
  by code_simp

theorem addOrUpdateAcademic_idempotent_witness:
  "well_behaved faithful \<and> name derrida_update \<noteq> [] \<and>
   get_property (academics example_db) (normalizeNameKey (name derrida_update)) \<noteq> Inherited \<and>
   (\<exists>ok d1 d2.
      addOrUpdateAcademic faithful 1 example_db derrida_update = Some (ok, d1) \<and>
      addOrUpdateAcademic faithful 2 d1 derrida_update = Some (ok, d2) \<and>
      academics d2 = academics d1)"
proof -
  have n: "name derrida_update \<noteq> []" by (simp add: derrida_update_def)
  show ?thesis
    using addOrUpdateAcademic_idempotent[OF well_behaved_faithful n example_db_own, of 1 2]
      well_behaved_faithful n example_db_own by blast
qed

text \<open>
  The two ways in which a property read reaches \<open>Object.prototype\<close>, each at an input.
  A category named \<open>constructor\<close> makes the merge throw: the call returns \<open>false\<close>,
  the paper is not merged and nothing is saved. A name that normalizes to
  \<open>constructor\<close> leaves the model.
\<close>

lemma addOrUpdateAcademic_throws:
  "addOrUpdateAcademic faithful 1 example_db derrida_tagged = Some (False, example_db)"
  by code_simp

lemma addOrUpdateAcademic_builtin:
  "addOrUpdateAcademic faithful 1 example_db (bare ''Constructor'') = None"
  by code_simp

text \<open>
  Claim C6. A stored record that has the paper \<open>of grammatology\<close> of 1967 keeps its
  list of papers, and so the length of the list, when a candidate whose paper is
  \<open>Of Grammatology\<close> of 1967 is merged into it: titles are compared in lower case and
  the years are equal.
\<close>

theorem paper_dedup_case_insensitive:
  assumes "well_behaved F" and "name a \<noteq> []"
    and "map_of (academics d) (normalizeNameKey (name a)) = Some r"
    and "\<lparr>p_title = ''of grammatology'', p_year = Some 1967, p_coauthors = cs\<rparr> \<in> set (or_empty (papers r))"
    and "papers a = Some [\<lparr>p_title = ''Of Grammatology'', p_year = Some 1967, p_coauthors = cs'\<rparr>]"
  shows "\<exists>ok d'. addOrUpdateAcademic F now d a = Some (ok, d') \<and>
           (\<exists>r'. map_of (academics d') (normalizeNameKey (name a)) = Some r'
              \<and> papers r' = papers r
              \<and> length (or_empty (papers r')) = length (or_empty (papers r)))"
proof -
  let ?old = "\<lparr>p_title = ''of grammatology'', p_year = Some 1967, p_coauthors = cs\<rparr>"
  let ?new = "\<lparr>p_title = ''Of Grammatology'', p_year = Some 1967, p_coauthors = cs'\<rparr>"
  have "toLowerCase ''Of Grammatology'' = ''of grammatology''" by code_simp
  moreover have "toLowerCase ''of grammatology'' = ''of grammatology''" by code_simp
  ultimately have m: "paper_matches ?old ?new"
    by (simp add: paper_matches_def)
  have "list_ex (\<lambda>e. paper_matches e ?new) (or_empty (papers r))"
    using assms(4) m by (auto simp: list_ex_iff)
  then have ml: "merge_list paper_matches (or_empty (papers r)) [?new] = or_empty (papers r)"
    by (intro merge_list_id) simp
  obtain ps where ps: "papers r = Some ps"
    using assms(4) by (cases "papers r") (auto simp: or_empty_def)
  have p: "papers (snd (merge r a)) = papers r"
    using assms(5) ml ps by (simp add: papers_merge nonempty_def or_empty_def)
  from addOrUpdateAcademic_Own[OF assms(1,2,3), of now]
  obtain d' where d': "addOrUpdateAcademic F now d a = Some (fst (merge r a), d')"
    "academics d' = AList.update (normalizeNameKey (name a)) (snd (merge r a)) (academics d)"
    by blast
  have "map_of (academics d') (normalizeNameKey (name a)) = Some (snd (merge r a))"
    by (simp add: d'(2) update_conv')
  then show ?thesis using d'(1) p by auto
qed

theorem paper_dedup_case_insensitive_witness:
  "well_behaved faithful \<and> name derrida_update \<noteq> [] \<and>
   map_of (academics example_db) (normalizeNameKey (name derrida_update)) = Some derrida \<and>
   (\<exists>ok d'. addOrUpdateAcademic faithful 1 example_db derrida_update = Some (ok, d') \<and>
      (\<exists>r'. map_of (academics d') (normalizeNameKey (name derrida_update)) = Some r'
        \<and> length (or_empty (papers r')) = 1))"
proof -
  have k: "map_of (academics example_db) (normalizeNameKey (name derrida_update)) = Some derrida"
    by (simp add: example_db_def derrida_update_def key_derrida)
  have p: "\<lparr>p_title = ''of grammatology'', p_year = Some 1967, p_coauthors = []\<rparr> \<in> set (or_empty (papers derrida))"
    by (simp add: derrida_def or_empty_def)
  have q: "papers derrida_update = Some [\<lparr>p_title = ''Of Grammatology'', p_year = Some 1967, p_coauthors = []\<rparr>]"
    by (simp add: derrida_update_def)
  have n: "name derrida_update \<noteq> []" by (simp add: derrida_update_def)
  have l: "length (or_empty (papers derrida)) = 1" by (simp add: derrida_def or_empty_def)
  from paper_dedup_case_insensitive[OF well_behaved_faithful n k p q, of 1]
  show ?thesis using k n l well_behaved_faithful by auto
qed

section \<open>Searching\<close>

text \<open>
  Claim C10. With an empty criteria object every record matches and nothing is sorted:
  the result is the list of the catalog's records.
\<close>

theorem searchAcademics_empty_criteria:
  "searchAcademics localeCompare d Map.empty = values_of (academics d)"
  by (simp add: searchAcademics_def matches_def name_ok_def field_ok_def nonempty_def
        taxonomyFields_def)

lemma insert_by_insort_key:
  "\<forall>y \<in> set ys. (cmp x y \<le> 0) = (f x \<le> f y) \<Longrightarrow> insert_by cmp x ys = insort_key f x ys"
  by (induction ys) auto

lemma sort_by_sort_key:
  "\<forall>x \<in> set xs. \<forall>y \<in> set xs. (cmp x y \<le> 0) = (f x \<le> f y) \<Longrightarrow> sort_by cmp xs = sort_key f xs"
proof (induction xs)
  case Nil then show ?case by (simp add: sort_by_def)
next
  case (Cons x xs)
  then have ih: "sort_by cmp xs = sort_key f xs" by simp
  have "insert_by cmp x (sort_key f xs) = insort_key f x (sort_key f xs)"
    using Cons.prems by (intro insert_by_insort_key) simp
  then show ?case using ih by (simp add: sort_by_def)
qed

lemma relevance_rank:
  assumes "indexOf (toLowerCase (name a)) q \<noteq> -1" "indexOf (toLowerCase (name b)) q \<noteq> -1"
  shows "(relevance L q a b \<le> 0) = (rank q a \<le> rank q b)"
  using assms by (auto simp: relevance_def rank_def Let_def less_eq_prod_def)

lemma search_results_sorted:
  assumes "nonempty (c ''name'')"
  shows "searchAcademics L d c =
         sort_key (rank (toLowerCase (or_empty (c ''name''))))
           (filter (matches c) (values_of (academics d)))"
proof -
  let ?q = "toLowerCase (or_empty (c ''name''))"
  let ?xs = "filter (matches c) (values_of (academics d))"
  have "\<forall>a \<in> set ?xs. indexOf (toLowerCase (name a)) ?q \<noteq> -1"
    using assms by (auto simp: matches_def name_ok_def includes_str_def)
  then have "sort_by (relevance L ?q) ?xs = sort_key (rank ?q) ?xs"
    by (intro sort_by_sort_key) (simp add: relevance_rank)
  then show ?thesis using assms by (simp add: searchAcademics_def Let_def)
qed

lemma hd_sorted_min:
  assumes "sorted (map f xs)" "x \<in> set xs"
  shows "f (hd xs) \<le> f x"
  using assms by (cases xs) auto

text \<open>
  Claim C8, as the code has it. With a name filter, \<open>searchAcademics\<close> returns the
  records that satisfy all the criteria, sorted stably by rank: exact matches of the
  name first, then by the position of the query in the name. Records of equal rank
  keep the order of the catalog; the collation \<open>localeCompare\<close> is never consulted.
  If an exact match is among the results, the first result is an exact match.
\<close>

theorem searchAcademics_ranked:
  assumes "nonempty (c ''name'')"
  shows "searchAcademics L d c =
           sort_key (rank (toLowerCase (or_empty (c ''name''))))
             (filter (matches c) (values_of (academics d)))
       \<and> (\<forall>a \<in> set (searchAcademics L d c).
             toLowerCase (name a) = toLowerCase (or_empty (c ''name'')) \<longrightarrow>
             toLowerCase (name (hd (searchAcademics L d c))) = toLowerCase (or_empty (c ''name'')))"
proof -
  let ?q = "toLowerCase (or_empty (c ''name''))"
  let ?r = "searchAcademics L d c"
  have eq: "?r = sort_key (rank ?q) (filter (matches c) (values_of (academics d)))"
    using assms by (rule search_results_sorted)
  have srt: "sorted (map (rank ?q) ?r)" unfolding eq by simp
  have "toLowerCase (name (hd ?r)) = ?q" if "a \<in> set ?r" "toLowerCase (name a) = ?q" for a
  proof -
    have "rank ?q (hd ?r) \<le> rank ?q a" by (rule hd_sorted_min[OF srt that(1)])
    then have "fst (rank ?q (hd ?r)) \<le> fst (rank ?q a)" by (auto simp: less_eq_prod_def)
    then show ?thesis using that(2) by (simp add: rank_def split: if_splits)
  qed
  then show ?thesis using eq by blast
qed

lemma michel_search:
  "searchAcademics codeCompare michel_db [''name'' \<mapsto> ''Michel Foucault''] = [bare ''Michel Foucault'']"
  by code_simp

theorem searchAcademics_ranked_witness:
  "nonempty ([''name'' \<mapsto> ''Michel Foucault''] ''name'') \<and>
   searchAcademics codeCompare michel_db [''name'' \<mapsto> ''Michel Foucault''] =
     sort_key (rank (toLowerCase (or_empty ([''name'' \<mapsto> ''Michel Foucault''] ''name''))))
       (filter (matches [''name'' \<mapsto> ''Michel Foucault'']) (values_of (academics michel_db))) \<and>
   searchAcademics codeCompare michel_db [''name'' \<mapsto> ''Michel Foucault''] = [bare ''Michel Foucault'']"
proof -
  have n: "nonempty ([''name'' \<mapsto> ''Michel Foucault''] ''name'')" by (simp add: nonempty_def)
  show ?thesis
    using searchAcademics_ranked[of "[''name'' \<mapsto> ''Michel Foucault'']" codeCompare michel_db]
      n michel_search by blast
qed

theorem searchAcademics_alphabetical_counterexample:
  "searchAcademics codeCompare michel_db [''name'' \<mapsto> ''michel''] =
     [bare ''Michel Henry'', bare ''Michel Foucault'']
   \<and> rank ''michel'' (bare ''Michel Henry'') = rank ''michel'' (bare ''Michel Foucault'')
   \<and> codeCompare ''Michel Foucault'' ''Michel Henry'' < 0"
  by code_simp

section \<open>Novelty tiles\<close>











section \<open>Failed saves and the round trip\<close>

lemma academics_restoreFromBackup:
  "localStorageSupported d \<Longrightarrow>
   academics (snd (restoreFromBackup F d)) =
     (case ls_backup (localStorage d) of Some (JObject c) \<Rightarrow> c | _ \<Rightarrow> academics d)"
  by (auto simp: restoreFromBackup_def Let_def truthy_slot_def
        split: sum.splits option.splits stored.splits)

lemma supported_try_writes:
  "try_writes F d = Inr d' \<Longrightarrow> localStorageSupported d' = localStorageSupported d"
  by (auto simp: try_writes_def Let_def split: sum.splits)

lemma backup_try_writes:
  assumes "backup_intact F" "try_writes F d = Inr d'"
  shows "ls_backup (localStorage d') = ls_backup (localStorage d)"
proof -
  have keep: "\<And>k old new s. k \<noteq> KBackup \<Longrightarrow> F k old new = Inr s \<Longrightarrow> ls_backup s = ls_backup new"
    using assms(1) unfolding backup_intact_def by blast
  show ?thesis using assms(2)
    by (auto simp: try_writes_def Let_def split: sum.splits dest!: keep[rotated])
qed

lemma backup_createBackup:
  assumes "backup_intact F" "localStorageSupported d" "ls_academics (localStorage d) = Some (JObject c)"
  shows "ls_backup (localStorage (createBackup F d)) = Some (JObject c)"
proof -
  have "\<And>old new. F KBackup old new = Inr new" using assms(1) unfolding backup_intact_def by blast
  then show ?thesis using assms(2,3) by (simp add: createBackup_def Let_def truthy_slot_def)
qed

text \<open>
  Claim C1, as the code has it. When a call of \<open>saveToLocalStorage\<close> fails its
  verification it returns \<open>false\<close>, and the catalog in memory is then the one held by
  the backup slot, if that slot parses to an object, and is unchanged otherwise. Over a
  storage that keeps the backup slot intact, and with a catalog persisted before the
  call, the catalog in memory after the call is that persisted catalog.
\<close>

theorem saveToLocalStorage_failed_verification:
  assumes "verification_fails F d"
  shows "\<not> fst (saveToLocalStorage F d)
       \<and> academics (snd (saveToLocalStorage F d)) =
           (case backup_catalog F d of Some c \<Rightarrow> c | None \<Rightarrow> academics d)
       \<and> (backup_intact F \<and> ls_academics (localStorage d) = Some (JObject persisted) \<longrightarrow>
            academics (snd (saveToLocalStorage F d)) = persisted)"
proof -
  from assms obtain d4 where sup: "localStorageSupported d"
    and tw: "try_writes F (createBackup F d) = Inr d4"
    and nv: "\<not> verified (ls_academics (localStorage d4))"
    by (auto simp: verification_fails_def split: sum.splits)
  have s: "saveToLocalStorage F d = (False, snd (restoreFromBackup F d4))"
    using sup tw nv by (simp add: saveToLocalStorage_def)
  have sup4: "localStorageSupported d4"
    using supported_try_writes[OF tw] sup by (simp add: supported_createBackup)
  have a4: "academics d4 = academics d"
    using try_writes_Inr[OF tw] by (simp add: academics_createBackup)
  have res: "academics (snd (saveToLocalStorage F d)) =
        (case ls_backup (localStorage d4) of Some (JObject c) \<Rightarrow> c | _ \<Rightarrow> academics d)"
    unfolding s by (simp add: academics_restoreFromBackup[OF sup4] a4 split: option.splits stored.splits)
  have one: "academics (snd (saveToLocalStorage F d)) =
        (case backup_catalog F d of Some c \<Rightarrow> c | None \<Rightarrow> academics d)"
    unfolding res by (simp add: backup_catalog_def tw split: option.splits stored.splits)
  have two: "academics (snd (saveToLocalStorage F d)) = persisted"
    if "backup_intact F" "ls_academics (localStorage d) = Some (JObject persisted)"
  proof -
    have "ls_backup (localStorage d4) = Some (JObject persisted)"
      using backup_try_writes[OF that(1) tw] backup_createBackup[OF that(1) sup that(2)] by simp
    then show ?thesis unfolding res by simp
  qed
  show ?thesis using s one two by simp
qed

lemma garbling_fails: "verification_fails garbling unsaved_db"
  by code_simp

lemma garbling_backup_intact: "backup_intact garbling"
  by (simp add: backup_intact_def garbling_def)

theorem saveToLocalStorage_failed_verification_witness:
  "verification_fails garbling unsaved_db \<and> backup_intact garbling \<and>
   ls_academics (localStorage unsaved_db) = Some (JObject []) \<and>
   \<not> fst (saveToLocalStorage garbling unsaved_db) \<and>
   academics (snd (saveToLocalStorage garbling unsaved_db)) = []"
proof -
  have p: "ls_academics (localStorage unsaved_db) = Some (JObject [])"
    by (simp add: unsaved_db_def example_db_def empty_storage_def)
  show ?thesis
    using saveToLocalStorage_failed_verification[OF garbling_fails, of "[]"]
      garbling_fails garbling_backup_intact p by blast
qed

theorem saveToLocalStorage_unchanged_counterexample:
  "verification_fails garbling unsaved_db \<and>
   academics unsaved_db = [(''jacques-derrida'', derrida)] \<and>
   academics (snd (saveToLocalStorage garbling unsaved_db)) = []"
  by code_simp

text \<open>
  Claim C7, as the code has it. Importing what \<open>exportToJSON\<close> returns leaves a catalog
  equal to the one before, empty or not, over a storage that does not corrupt writes.
  The import reports success exactly when its save does, so it reports failure where
  localStorage is not supported.
\<close>

theorem export_import_roundtrip:
  assumes "well_behaved F"
  shows "academics (snd (importFromJSON F now d (exportToJSON now' d))) = academics d
       \<and> fst (importFromJSON F now d (exportToJSON now' d)) = fst (saveToLocalStorage F d)
       \<and> (\<not> localStorageSupported d \<longrightarrow> \<not> fst (importFromJSON F now d (exportToJSON now' d)))"
proof -
  obtain ok d3 where sv: "saveToLocalStorage F d = (ok, d3)" by (cases "saveToLocalStorage F d")
  have a3: "academics d3 = academics d"
    using academics_saveToLocalStorage[OF assms, of d] sv by simp
  have imp: "importFromJSON F now d (exportToJSON now' d) =
      (if ok then (True, snd (addNoveltyTile F now d3
                          \<lparr>ti_title = ''Database Import'',
                           ti_content = ''Database imported with '' @ decimal (length (academics d))
                                          @ '' academics.'',
                           ti_date = Some now, ti_type = ''system''\<rparr>))
       else (False, d3\<lparr>academics := academics d\<rparr>))"
    by (simp add: importFromJSON_def exportToJSON_def Let_def sv)
  have "\<not> localStorageSupported d \<Longrightarrow> \<not> ok"
    using sv by (simp add: saveToLocalStorage_def)
  then show ?thesis
    by (simp add: imp sv academics_addNoveltyTile[OF assms] a3)
qed

theorem export_import_roundtrip_witness:
  "well_behaved faithful \<and> \<not> localStorageSupported offline_db \<and>
   academics (snd (importFromJSON faithful 2 offline_db (exportToJSON 1 offline_db))) = academics offline_db \<and>
   \<not> fst (importFromJSON faithful 2 offline_db (exportToJSON 1 offline_db))"
proof -
  have u: "\<not> localStorageSupported offline_db" by (simp add: offline_db_def)
  show ?thesis
    using export_import_roundtrip[OF well_behaved_faithful, of 2 offline_db 1] u
      well_behaved_faithful by blast
qed

theorem import_succeeds_counterexample:
  "academics offline_db \<noteq> [] \<and>
   \<not> fst (importFromJSON faithful 2 offline_db (exportToJSON 1 offline_db))"
  by code_simp

section \<open>Resolving names\<close>

lemma key_names_update:
  "map_of c k = Some r \<Longrightarrow> name r' = name r \<Longrightarrow> key_names (AList.update k r' c) = key_names c"
  by (induction c) (auto simp: key_names_def split: if_splits)

lemma map_of_key_names:
  "key_names c = key_names c' \<Longrightarrow> (map_of c k = None) = (map_of c' k = None)"
proof -
  assume "key_names c = key_names c'"
  then have "map fst (key_names c) = map fst (key_names c')" by simp
  then have "map fst c = map fst c'" by (simp add: key_names_def comp_def)
  then have "fst ` set c = fst ` set c'" by (metis set_map)
  then show ?thesis by (simp add: map_of_eq_None_iff)
qed

lemma find_key_names:
  "key_names c = key_names c' \<Longrightarrow>
   map_option fst (find (\<lambda>ka. Q (name (snd ka))) c) = map_option fst (find (\<lambda>ka. Q (name (snd ka))) c')"
proof (induction c arbitrary: c')
  case Nil then show ?case by (simp add: key_names_def)
next
  case (Cons x xs)
  then obtain y ys where c': "c' = y # ys" by (cases c') (auto simp: key_names_def)
  with Cons.prems have h: "fst x = fst y" "name (snd x) = name (snd y)" "key_names xs = key_names ys"
    by (auto simp: key_names_def)
  show ?case using Cons.IH[OF h(3)] h(1,2) by (simp add: c')
qed

lemma get_property_key_names:
  assumes "key_names c = key_names c'"
  shows "(get_property c k = Inherited) = (get_property c' k = Inherited)"
    and "(get_property c k = Missing) = (get_property c' k = Missing)"
    and "(\<exists>a. get_property c k = Own a) = (\<exists>a. get_property c' k = Own a)"
  using map_of_key_names[OF assms, of k]
  by (auto simp: get_property_def split: option.splits)

lemma resolved_key_found: "resolved_key (found r) = (case r of None \<Rightarrow> Missing | Some ka \<Rightarrow> Own (fst ka))"
  by (simp add: found_def resolved_key_def split: option.splits)

lemma getAcademic_key_names:
  assumes "key_names (academics d) = key_names (academics d')"
  shows "resolved_key (getAcademic d nm) = resolved_key (getAcademic d' nm)"
proof (cases "nm = []")
  case True then show ?thesis by (simp add: getAcademic_def)
next
  case False
  let ?k = "normalizeNameKey nm"
  let ?P1 = "\<lambda>ka. (\<lambda>n. toLowerCase n = toLowerCase nm) (name (snd ka))"
  let ?P2 = "\<lambda>ka. (\<lambda>n. includes_str (toLowerCase n) (toLowerCase nm) \<or>
                       includes_str (toLowerCase nm) (toLowerCase n)) (name (snd ka))"
  note gp = get_property_key_names[OF assms, of ?k]
  have f1: "map_option fst (find ?P1 (academics d)) = map_option fst (find ?P1 (academics d'))"
    by (rule find_key_names[OF assms])
  have f2: "map_option fst (find ?P2 (academics d)) = map_option fst (find ?P2 (academics d'))"
    by (rule find_key_names[OF assms])
  show ?thesis
  proof (cases "get_property (academics d) ?k")
    case (Own a)
    then obtain a' where "get_property (academics d') ?k = Own a'" using gp(3) by auto
    then show ?thesis using Own False by (simp add: getAcademic_def Let_def resolved_key_def)
  next
    case Inherited
    then have "get_property (academics d') ?k = Inherited" using gp(1) by simp
    then show ?thesis using Inherited False by (simp add: getAcademic_def Let_def)
  next
    case Missing
    then have n': "get_property (academics d') ?k = Missing" using gp(2) by simp
    show ?thesis
    proof (cases "find ?P1 (academics d)")
      case (Some ka)
      then obtain ka' where "find ?P1 (academics d') = Some ka'" "fst ka' = fst ka"
        using f1 by (cases "find ?P1 (academics d')") auto
      then show ?thesis using Some Missing n' False
        by (simp add: getAcademic_def Let_def resolved_key_def)
    next
      case N1: None
      then have N2: "find ?P1 (academics d') = None"
        using f1 by (cases "find ?P1 (academics d')") auto
      have "resolved_key (found (find ?P2 (academics d))) = resolved_key (found (find ?P2 (academics d')))"
        using f2
        by (cases "find ?P2 (academics d)"; cases "find ?P2 (academics d')")
           (auto simp: resolved_key_found)
      then show ?thesis using N1 N2 Missing n' False by (simp add: getAcademic_def Let_def)
    qed
  qed
qed

lemma find_map_of:
  "distinct (map fst c) \<Longrightarrow> find P c = Some ka \<Longrightarrow> map_of c (fst ka) = Some (snd ka)"
  by (metis find_Some_iff map_of_is_SomeI nth_mem prod.collapse)

lemma getAcademic_map_of:
  assumes "distinct (map fst (academics d))" "getAcademic d nm = Found k r"
  shows "map_of (academics d) k = Some r"
proof -
  note fm = find_map_of[OF assms(1)]
  show ?thesis
    using assms(2)
    apply (simp add: getAcademic_def Let_def found_def split: if_splits property.splits option.splits)
      apply (simp add: get_property_def split: option.splits if_splits)
     apply (drule fm, simp)
    apply (drule fm, simp)
    done
qed

lemma getAcademic_cong: "academics d = academics d' \<Longrightarrow> getAcademic d nm = getAcademic d' nm"
  unfolding getAcademic_def by (erule subst) (rule refl)

lemma map_of_key_names_name:
  "map_of (key_names c) k = map_option name (map_of c k)"
  by (induction c) (auto simp: key_names_def)

section \<open>Enrichment, one connection at a time\<close>

lemma fst_key_names: "map fst (key_names c) = map fst c"
  by (simp add: key_names_def comp_def)

lemma list_all_key_names:
  "list_all (\<lambda>kn. fst kn = normalizeNameKey (snd kn)) (key_names c) =
   list_all (\<lambda>ka. fst ka = normalizeNameKey (name (snd ka))) c"
  by (induction c) (simp_all add: key_names_def)

lemma catalog_wf_alt:
  "catalog_wf c = (distinct (map fst (key_names c)) \<and>
     list_all (\<lambda>kn. fst kn = normalizeNameKey (snd kn)) (key_names c))"
  by (simp only: catalog_wf_def fst_key_names list_all_key_names)

lemma catalog_wf_key_names: "key_names c = key_names c' \<Longrightarrow> catalog_wf c = catalog_wf c'"
  by (simp only: catalog_wf_alt)

lemma catalog_wf_key:
  "catalog_wf c \<Longrightarrow> map_of c k = Some r \<Longrightarrow> k = normalizeNameKey (name r)"
  by (auto simp: catalog_wf_def list_all_iff dest!: map_of_SomeD)

lemma extends_refl: "extends d d"
  by (simp add: extends_def)

lemma extends_trans:
  assumes "extends d d'" "extends d' d''"
  shows "extends d d''"
proof -
  have kn: "key_names (academics d'') = key_names (academics d)"
    using assms by (simp add: extends_def)
  have "\<exists>r''. map_of (academics d'') k = Some r'' \<and>
          set (or_empty (connections r)) \<subseteq> set (or_empty (connections r''))"
    if "map_of (academics d) k = Some r" for k r
  proof -
    from assms(1) that obtain r' where r': "map_of (academics d') k = Some r'"
      "set (or_empty (connections r)) \<subseteq> set (or_empty (connections r'))"
      unfolding extends_def by blast
    from assms(2) r'(1) obtain r'' where "map_of (academics d'') k = Some r''"
      "set (or_empty (connections r')) \<subseteq> set (or_empty (connections r''))"
      unfolding extends_def by blast
    then show ?thesis using r'(2) by blast
  qed
  then show ?thesis using kn unfolding extends_def by blast
qed

lemma extends_academics_eq: "academics d' = academics d \<Longrightarrow> extends d d'"
  by (simp add: extends_def)

lemma extends_update:
  assumes "map_of (academics d) k = Some c" "name c' = name c"
    "set (or_empty (connections c)) \<subseteq> set (or_empty (connections c'))"
    "academics d' = AList.update k c' (academics d)"
  shows "extends d d'"
  using assms by (auto simp: extends_def key_names_update update_conv')

lemma enrich_connection_NotFound:
  "getAcademic d conn = NotFound \<Longrightarrow> enrich_connection F now an conn d = Some d"
  by (simp add: enrich_connection_def)

lemma enrich_connection_Builtin:
  "getAcademic d conn = Builtin \<Longrightarrow> enrich_connection F now an conn d = None"
  by (simp add: enrich_connection_def)

lemma addOrUpdateAcademic_stored:
  assumes wb: "well_behaved F" and "map_of (academics d) (normalizeNameKey (name c)) = Some c"
  shows "\<exists>ok d'. addOrUpdateAcademic F now d c = Some (ok, d') \<and> academics d' = academics d"
proof (cases "name c = []")
  case True
  then have "addOrUpdateAcademic F now d c = Some (False, d)" by (simp add: addOrUpdateAcademic_def)
  then show ?thesis by blast
next
  case False
  from addOrUpdateAcademic_Own[OF wb False assms(2), of now]
  show ?thesis using assms(2) by (auto simp: merge_self update_triv)
qed

lemma enrich_connection_Found:
  assumes wb: "well_behaved F" and wf: "catalog_wf (academics d)"
    and g: "getAcademic d conn = Found k c"
  shows "\<exists>d' c'. enrich_connection F now an conn d = Some d'
            \<and> academics d' = AList.update k c' (academics d)
            \<and> name c' = name c
            \<and> set (or_empty (connections c)) \<subseteq> set (or_empty (connections c'))
            \<and> an \<in> set (or_empty (connections c'))"
proof -
  have m: "map_of (academics d) k = Some c"
    using getAcademic_map_of[OF _ g] wf by (simp add: catalog_wf_def)
  have k: "k = normalizeNameKey (name c)" by (rule catalog_wf_key[OF wf m])
  define c1 where "c1 = (if connections c = None then c\<lparr>connections := Some []\<rparr> else c)"
  have c1: "name c1 = name c" "or_empty (connections c1) = or_empty (connections c)"
    by (auto simp: c1_def or_empty_def)
  define d1 where "d1 = d\<lparr>academics := AList.update k c1 (academics d)\<rparr>"
  show ?thesis
  proof (cases "an \<in> set (or_empty (connections c1))")
    case True
    have "enrich_connection F now an conn d = Some d1"
      using True g by (simp add: enrich_connection_def Let_def c1_def d1_def)
    then show ?thesis using True c1 by (auto simp: d1_def)
  next
    case False
    define c2 where "c2 = c1\<lparr>connections := Some (or_empty (connections c1) @ [an])\<rparr>"
    define d2 where "d2 = d1\<lparr>academics := AList.update k c2 (academics d1)\<rparr>"
    have a2: "academics d2 = AList.update k c2 (academics d)"
      by (simp add: d2_def d1_def update_update_same)
    have st: "map_of (academics d2) (normalizeNameKey (name c2)) = Some c2"
      using k c1(1) by (simp add: a2 update_conv' c2_def)
    from addOrUpdateAcademic_stored[OF wb st, of now]
    obtain ok d3 where d3: "addOrUpdateAcademic F now d2 c2 = Some (ok, d3)"
      "academics d3 = academics d2" by blast
    obtain t where e: "enrich_connection F now an conn d = Some (snd (addNoveltyTile F now d3 t))"
      using False g d3(1)
      by (simp add: enrich_connection_def Let_def c1_def[symmetric] d1_def[symmetric]
            c2_def[symmetric] d2_def[symmetric])
    have "academics (snd (addNoveltyTile F now d3 t)) = AList.update k c2 (academics d)"
      by (simp add: academics_addNoveltyTile[OF wb] d3(2) a2)
    moreover have "name c2 = name c" "an \<in> set (or_empty (connections c2))"
      "set (or_empty (connections c)) \<subseteq> set (or_empty (connections c2))"
      using c1 by (auto simp: c2_def or_empty_def)
    ultimately show ?thesis using e by blast
  qed
qed

lemma enrich_connection_extends:
  assumes wb: "well_behaved F" and wf: "catalog_wf (academics d)"
    and e: "enrich_connection F now an conn d = Some d'"
  shows "extends d d'"
proof (cases "getAcademic d conn")
  case NotFound
  then show ?thesis using e by (simp add: enrich_connection_NotFound extends_refl)
next
  case Builtin
  then show ?thesis using e by (simp add: enrich_connection_Builtin)
next
  case (Found k c)
  have m: "map_of (academics d) k = Some c"
    using getAcademic_map_of[OF _ Found] wf by (simp add: catalog_wf_def)
  from enrich_connection_Found[OF wb wf Found, of now an] e
  obtain c' where "academics d' = AList.update k c' (academics d)"
    "name c' = name c" "set (or_empty (connections c)) \<subseteq> set (or_empty (connections c'))"
    by auto
  then show ?thesis using extends_update[OF m] by blast
qed

lemma extends_wf:
  assumes "extends d d'" "catalog_wf (academics d)"
  shows "catalog_wf (academics d')"
proof -
  have "key_names (academics d') = key_names (academics d)"
    using assms(1) by (simp add: extends_def)
  then have "catalog_wf (academics d') = catalog_wf (academics d)"
    by (rule catalog_wf_key_names)
  then show ?thesis using assms(2) by simp
qed

lemma enrich_connections_extends:
  assumes wb: "well_behaved F"
  shows "catalog_wf (academics d) \<Longrightarrow> enrich_connections F now an cs d = Some d' \<Longrightarrow> extends d d'"
proof (induction cs arbitrary: d)
  case Nil then show ?case by (simp add: extends_refl)
next
  case (Cons x xs)
  from Cons.prems(2) obtain d1 where d1: "enrich_connection F now an x d = Some d1"
    "enrich_connections F now an xs d1 = Some d'"
    by (auto split: option.splits)
  have e1: "extends d d1" by (rule enrich_connection_extends[OF wb Cons.prems(1) d1(1)])
  have e2: "extends d1 d'" by (rule Cons.IH[OF extends_wf[OF e1 Cons.prems(1)] d1(2)])
  show ?case by (rule extends_trans[OF e1 e2])
qed

lemma enrich_connections_reciprocal:
  assumes wb: "well_behaved F"
  shows "catalog_wf (academics d) \<Longrightarrow> enrich_connections F now an cs d = Some d' \<Longrightarrow>
         B \<in> set cs \<Longrightarrow> getAcademic d' B = Found k r \<Longrightarrow>
         an \<in> set (or_empty (connections r))"
proof (induction cs arbitrary: d)
  case Nil then show ?case by simp
next
  case (Cons x xs)
  from Cons.prems(2) obtain d1 where d1: "enrich_connection F now an x d = Some d1"
    "enrich_connections F now an xs d1 = Some d'"
    by (auto split: option.splits)
  have e1: "extends d d1" by (rule enrich_connection_extends[OF wb Cons.prems(1) d1(1)])
  have wf1: "catalog_wf (academics d1)" by (rule extends_wf[OF e1 Cons.prems(1)])
  have en: "extends d1 d'" by (rule enrich_connections_extends[OF wb wf1 d1(2)])
  note g = Cons.prems(4)
  show ?case
  proof (cases "B \<in> set xs")
    case True
    show ?thesis by (rule Cons.IH[OF wf1 d1(2) True g])
  next
    case False
    then have bx: "B = x" using Cons.prems(3) by simp
    have wfn: "catalog_wf (academics d')" by (rule extends_wf[OF en wf1])
    have mr: "map_of (academics d') k = Some r"
      using getAcademic_map_of[OF _ g] wfn by (simp add: catalog_wf_def)
    have kn: "key_names (academics d') = key_names (academics d)"
      using e1 en by (simp add: extends_def)
    have "resolved_key (getAcademic d B) = resolved_key (getAcademic d' B)"
      by (rule getAcademic_key_names[OF kn[symmetric]])
    then obtain c where gd: "getAcademic d x = Found k c"
      using g bx by (cases "getAcademic d B") (auto simp: resolved_key_def)
    from enrich_connection_Found[OF wb Cons.prems(1) gd, of now an] d1(1)
    obtain c' where c': "academics d1 = AList.update k c' (academics d)"
      "an \<in> set (or_empty (connections c'))" by auto
    have "map_of (academics d1) k = Some c'" by (simp add: c'(1) update_conv')
    then obtain r' where "map_of (academics d') k = Some r'"
      "set (or_empty (connections c')) \<subseteq> set (or_empty (connections r'))"
      using en unfolding extends_def by blast
    then show ?thesis using mr c'(2) by auto
  qed
qed

section \<open>Reciprocal connections\<close>

lemma set_update_subset: "set (AList.update k v c) \<subseteq> insert (k, v) (set c)"
  by (induction c) auto

lemma catalog_wf_update:
  assumes "catalog_wf c" "k = normalizeNameKey (name v)"
  shows "catalog_wf (AList.update k v c)"
proof -
  have "distinct (map fst (AList.update k v c))"
    using assms(1) by (simp add: catalog_wf_def distinct_update)
  moreover have "list_all (\<lambda>ka. fst ka = normalizeNameKey (name (snd ka))) (AList.update k v c)"
    using assms set_update_subset[of k v c] by (auto simp: catalog_wf_def list_all_iff)
  ultimately show ?thesis by (simp add: catalog_wf_def)
qed

lemma catalog_wf_addOrUpdateAcademic:
  assumes wb: "well_behaved F" and wf: "catalog_wf (academics d)" and nm: "name a \<noteq> []"
    and r: "addOrUpdateAcademic F now d a = Some (ok, d1)"
  shows "catalog_wf (academics d1)"
proof (cases rule: get_property_cases[of "academics d" "normalizeNameKey (name a)"])
  case (own e)
  have "normalizeNameKey (name a) = normalizeNameKey (name (snd (merge e a)))"
    using catalog_wf_key[OF wf own(1)] by (simp add: name_merge)
  then show ?thesis
    using addOrUpdateAcademic_Own[OF wb nm own(1), of now] r catalog_wf_update[OF wf] by auto
next
  case inherited
  then show ?thesis using r addOrUpdateAcademic_Inherited[OF nm inherited(3)] by simp
next
  case missing
  then show ?thesis
    using addOrUpdateAcademic_Missing[OF wb nm missing(3), of now] r catalog_wf_update[OF wf] by auto
qed

text \<open>
  Claim C2, as the code has it. The reciprocal connection is added by
  \<open>enrichDatabase\<close>, not by \<open>addOrUpdateAcademic\<close>. Take a storage that does not
  corrupt writes and a catalog whose records are stored under their normalized names.
  Let \<open>enrichDatabase\<close> return \<open>true\<close> for the candidate, and let a name in the
  candidate's connections resolve by \<open>getAcademic\<close> to a stored record in the state
  that the call's \<open>addOrUpdateAcademic\<close> leaves, that is, once the candidate itself is
  stored. Then after the call the name resolves to the record under the same key, with
  the same name, and that record lists the candidate's name among its connections.
\<close>

theorem enrichDatabase_reciprocal:
  assumes "well_behaved F" and "catalog_wf (academics d)"
    and "addOrUpdateAcademic F now d A = Some (True, d1)"
    and "enrichDatabase F now d A = Some (True, d')"
    and "B \<in> set (or_empty (connections A))"
    and "getAcademic d1 B = Found k c"
  shows "\<exists>r. getAcademic d' B = Found k r \<and> name r = name c \<and>
             name A \<in> set (or_empty (connections r))"
proof -
  have nm: "name A \<noteq> []"
    using assms(4) by (auto simp: enrichDatabase_def split: if_splits)
  have wf1: "catalog_wf (academics d1)"
    by (rule catalog_wf_addOrUpdateAcademic[OF assms(1,2) nm assms(3)])
  obtain t where t: "t = \<lparr>ti_title = ''Database Enriched: '' @ name A,
                            ti_content = ''New information about '' @ name A
                                           @ '' has been added to the database from DeepSearch.'',
                            ti_date = Some now, ti_type = ''academic''\<rparr>" by simp
  define d2 where "d2 = snd (addNoveltyTile F now d1 t)"
  have a2: "academics d2 = academics d1"
    by (simp add: d2_def academics_addNoveltyTile[OF assms(1)])
  have wf2: "catalog_wf (academics d2)" using wf1 a2 by simp
  have ne: "nonempty (connections A)"
    using assms(5) by (cases "connections A"; cases "or_empty (connections A)")
      (auto simp: nonempty_def or_empty_def)
  have "enrichDatabase F now d A =
      map_option (Pair True) (enrich_connections F now (name A) (or_empty (connections A)) d2)"
    using nm ne by (simp add: enrichDatabase_def assms(3) Let_def d2_def t)
  then have e: "enrich_connections F now (name A) (or_empty (connections A)) d2 = Some d'"
    using assms(4)
    by (cases "enrich_connections F now (name A) (or_empty (connections A)) d2") auto
  have ex: "extends d2 d'" by (rule enrich_connections_extends[OF assms(1) wf2 e])
  have kn: "key_names (academics d') = key_names (academics d2)"
    using ex by (simp add: extends_def)
  have g2: "getAcademic d2 B = Found k c"
    using assms(6) getAcademic_cong[OF a2, of B] by simp
  have "resolved_key (getAcademic d' B) = resolved_key (getAcademic d2 B)"
    by (rule getAcademic_key_names[OF kn])
  then obtain r where gr: "getAcademic d' B = Found k r"
    using g2 by (cases "getAcademic d' B") (auto simp: resolved_key_def)
  have wf': "catalog_wf (academics d')" by (rule extends_wf[OF ex wf2])
  have m2: "map_of (academics d2) k = Some c"
    using getAcademic_map_of[OF _ g2] wf2 by (simp add: catalog_wf_def)
  have m': "map_of (academics d') k = Some r"
    using getAcademic_map_of[OF _ gr] wf' by (simp add: catalog_wf_def)
  have "map_option name (map_of (academics d') k) = map_option name (map_of (academics d2) k)"
    using kn by (simp add: map_of_key_names_name[symmetric])
  then have nr: "name r = name c" using m2 m' by simp
  have "name A \<in> set (or_empty (connections r))"
    by (rule enrich_connections_reciprocal[OF assms(1) wf2 e assms(5) gr])
  then show ?thesis using gr nr by blast
qed

lemma levinas_db_wf: "catalog_wf (academics levinas_db)"
  by code_simp

lemma levinas_stored:
  "addOrUpdateAcademic faithful 1 levinas_db derrida_levinas =
     Some (True, snd (the (addOrUpdateAcademic faithful 1 levinas_db derrida_levinas)))"
  by code_simp

lemma levinas_enriched:
  "enrichDatabase faithful 1 levinas_db derrida_levinas =
     Some (True, snd (the (enrichDatabase faithful 1 levinas_db derrida_levinas)))"
  by code_simp

lemma levinas_resolved:
  "getAcademic (snd (the (addOrUpdateAcademic faithful 1 levinas_db derrida_levinas)))
     ''Emmanuel Levinas'' = Found ''emmanuel-levinas'' (bare ''Emmanuel Levinas'')"
  by code_simp

lemma levinas_linked:
  "getAcademic (snd (the (enrichDatabase faithful 1 levinas_db derrida_levinas)))
     ''Emmanuel Levinas'' =
   Found ''emmanuel-levinas'' ((bare ''Emmanuel Levinas'')\<lparr>connections := Some [''Jacques Derrida'']\<rparr>)"
  by code_simp

theorem enrichDatabase_reciprocal_witness:
  "well_behaved faithful \<and> catalog_wf (academics levinas_db) \<and>
   map_option fst (addOrUpdateAcademic faithful 1 levinas_db derrida_levinas) = Some True \<and>
   map_option fst (enrichDatabase faithful 1 levinas_db derrida_levinas) = Some True \<and>
   ''Emmanuel Levinas'' \<in> set (or_empty (connections derrida_levinas)) \<and>
   getAcademic (snd (the (addOrUpdateAcademic faithful 1 levinas_db derrida_levinas)))
     ''Emmanuel Levinas'' = Found ''emmanuel-levinas'' (bare ''Emmanuel Levinas'') \<and>
   (\<exists>r. getAcademic (snd (the (enrichDatabase faithful 1 levinas_db derrida_levinas)))
           ''Emmanuel Levinas'' = Found ''emmanuel-levinas'' r \<and>
        name r = name (bare ''Emmanuel Levinas'') \<and>
        name derrida_levinas \<in> set (or_empty (connections r)))"
proof -
  have b: "''Emmanuel Levinas'' \<in> set (or_empty (connections derrida_levinas))"
    by (simp add: derrida_levinas_def or_empty_def)
  have s: "map_option fst (addOrUpdateAcademic faithful 1 levinas_db derrida_levinas) = Some True"
    by (subst levinas_stored) simp
  have e: "map_option fst (enrichDatabase faithful 1 levinas_db derrida_levinas) = Some True"
    by (subst levinas_enriched) simp
  show ?thesis
    using enrichDatabase_reciprocal[OF well_behaved_faithful levinas_db_wf levinas_stored
        levinas_enriched b levinas_resolved]
      well_behaved_faithful levinas_db_wf b s e levinas_resolved by blast
qed

theorem addOrUpdateAcademic_reciprocal_counterexample:
  "map_option fst (addOrUpdateAcademic faithful 1 levinas_db derrida_levinas) = Some True \<and>
   ''Emmanuel Levinas'' \<in> set (or_empty (connections derrida_levinas)) \<and>
   getAcademic (snd (the (addOrUpdateAcademic faithful 1 levinas_db derrida_levinas)))
     ''Emmanuel Levinas'' = Found ''emmanuel-levinas'' (bare ''Emmanuel Levinas'') \<and>
   name derrida_levinas \<notin> set (or_empty (connections (bare ''Emmanuel Levinas'')))"
  by code_simp

section \<open>Extraction\<close>













lemma scenario_guard:
  "\<not> includes_str derrida_text ''name''" "\<not> includes_str derrida_text ''bio''"
  by code_simp+

lemma scenario_name: "extract_name derrida_text = Some ''Jacques Derrida''"
  by code_simp

lemma scenario_bio: "extract_bio derrida_text = ''French philosopher known for deconstruction.''"
  by code_simp

lemma scenario_papers:
  "extract_papers derrida_text =
     [\<lparr>p_title = ''- Of Grammatology'', p_year = Some 1967, p_coauthors = []\<rparr>,
      \<lparr>p_title = ''Writing and Difference'', p_year = Some 1967, p_coauthors = []\<rparr>]"
  by code_simp

lemma scenario_connections:
  "extract_connections derrida_text = [''- Michel Foucault'', ''Emmanuel Levinas'']"
  by code_simp

lemma scenario_taxonomies: "extract_taxonomies derrida_text = []"
  by code_simp

lemma scenario_events: "extract_events derrida_text = []"
  by code_simp

text \<open>
  Claim C4, at its input. For the text of the scenario \<open>extractAcademicData\<close> returns
  \<open>null\<close>, whatever \<open>JSON.parse\<close> does: the text has \<open>Name\<close> and \<open>Bio\<close> but neither
  \<open>name\<close> nor \<open>bio\<close>, and the first check compares case. The section-based branch,
  which is not reached, would give the name, the two papers of 1967 and the two
  connections, the first item of each list still with its hyphen.
\<close>

theorem extractAcademicData_scenario:
  "extractAcademicData P derrida_text = None
   \<and> \<not> includes_str derrida_text ''name'' \<and> \<not> includes_str derrida_text ''bio''
   \<and> extract_sections derrida_text =
       Some \<lparr>name = ''Jacques Derrida'',
             bio = Some ''French philosopher known for deconstruction.'',
             taxonomies = Some [],
             papers = Some [\<lparr>p_title = ''- Of Grammatology'', p_year = Some 1967, p_coauthors = []\<rparr>,
                            \<lparr>p_title = ''Writing and Difference'', p_year = Some 1967, p_coauthors = []\<rparr>],
             events = Some [],
             connections = Some [''- Michel Foucault'', ''Emmanuel Levinas'']\<rparr>"
  using scenario_guard
  by (simp add: extractAcademicData_def extract_sections_def scenario_name scenario_bio
        scenario_papers scenario_connections scenario_taxonomies scenario_events)

theorem extractAcademicData_scenario_witness:
  "extractAcademicData parse_derrida_json derrida_text = None \<and>
   \<not> includes_str derrida_text ''name'' \<and> \<not> includes_str derrida_text ''bio''"
  using extractAcademicData_scenario[of parse_derrida_json] by blast

end
